theory Spec2Isabelle
  imports Complex_Main "HOL-Library.Char_ord" "HOL-Library.List_Lexorder"
begin

section \<open>Python values and exceptions\<close>

text \<open>
  Python integers are unbounded, so a year is an \<open>int\<close>. For a positive divisor Python's
  \<^verbatim>\<open>%\<close> and \<^verbatim>\<open>//\<close> are the floored \<open>mod\<close> and \<open>div\<close> of HOL on \<open>int\<close>.
  An exception is a value: a computation that may raise returns \<open>py_error + 'a\<close>, with
  \<open>Inl\<close> for the exception.
\<close>

datatype py_error = ValueError | OverflowError | KeyError

section \<open>The four candidates (Leap\_Benchmark\_II.py, lines 25-38)\<close>

text \<open>
  \<^verbatim>\<open>return year % 4 == 0 and (year % 100 != 0 or year % 400 == 0)\<close>
\<close>

definition leap_if_statements :: "int \<Rightarrow> bool" where
  "leap_if_statements year =
     (year mod 4 = 0 \<and> (year mod 100 \<noteq> 0 \<or> year mod 400 = 0))"

text \<open>
  \<^verbatim>\<open>return not year % 400 if not year % 100 else not year % 4\<close>;
  \<^verbatim>\<open>not n\<close> on an integer is \<open>n = 0\<close>.
\<close>

definition leap_ternary :: "int \<Rightarrow> bool" where
  "leap_ternary year =
     (if year mod 100 = 0 then year mod 400 = 0 else year mod 4 = 0)"

subsection \<open>The standard library: \<^verbatim>\<open>calendar.isleap\<close>\<close>

text \<open>
  \<^verbatim>\<open>def isleap(year): return year % 4 == 0 and (year % 100 != 0 or year % 400 == 0)\<close>
\<close>

definition isleap :: "int \<Rightarrow> bool" where
  "isleap year = (year mod 4 = 0 \<and> (year mod 100 \<noteq> 0 \<or> year mod 400 = 0))"

definition leap_calendar :: "int \<Rightarrow> bool" where
  "leap_calendar year = isleap year"

subsection \<open>The standard library: \<^verbatim>\<open>datetime\<close>\<close>

text \<open>
  The date arithmetic follows the reference implementation of the module
  (\<^verbatim>\<open>_pydatetime.py\<close>): a date is checked by \<^verbatim>\<open>_check_date_fields\<close>, which raises
  \<^verbatim>\<open>ValueError\<close> for a year outside \<open>MINYEAR..MAXYEAR\<close>; adding a \<^verbatim>\<open>timedelta\<close> goes to the
  proleptic Gregorian ordinal and back. The candidate builds midnight of February 28, so
  hour, minute, second and microsecond are zero throughout and a \<^verbatim>\<open>datetime\<close> is its
  (year, month, day).

  CPython imports the C implementation of the module, which computes the same dates and
  differs in one respect that a caller can see: the constructor parses year, month and day
  as C \<^verbatim>\<open>int\<close>s (format \<^verbatim>\<open>"iii"\<close>) before it checks their ranges, and the conversion raises
  \<^verbatim>\<open>OverflowError\<close> for an integer that does not fit in 32 bits.
\<close>

definition MINYEAR :: int where "MINYEAR = 1"
definition MAXYEAR :: int where "MAXYEAR = 9999"
definition MAXORDINAL :: int where "MAXORDINAL = 3652059"

definition DAYS_IN_MONTH :: "int list" where
  "DAYS_IN_MONTH = [-1, 31, 28, 31, 30, 31, 30, 31, 31, 30, 31, 30, 31]"

definition DAYS_BEFORE_MONTH :: "int list" where
  "DAYS_BEFORE_MONTH = [-1, 0, 31, 59, 90, 120, 151, 181, 212, 243, 273, 304, 334]"

definition is_leap :: "int \<Rightarrow> bool" where
  "is_leap year = (year mod 4 = 0 \<and> (year mod 100 \<noteq> 0 \<or> year mod 400 = 0))"

definition days_before_year :: "int \<Rightarrow> int" where
  "days_before_year year =
     (let y = year - 1 in y * 365 + y div 4 - y div 100 + y div 400)"

text \<open>Both functions are only called with \<open>1 \<le> month \<le> 12\<close> (an assertion in the source).\<close>

definition days_in_month :: "int \<Rightarrow> int \<Rightarrow> int" where
  "days_in_month year month =
     (if month = 2 \<and> is_leap year then 29 else DAYS_IN_MONTH ! nat month)"

definition days_before_month :: "int \<Rightarrow> int \<Rightarrow> int" where
  "days_before_month year month =
     DAYS_BEFORE_MONTH ! nat month + (if month > 2 \<and> is_leap year then 1 else 0)"

definition ymd2ord :: "int \<Rightarrow> int \<Rightarrow> int \<Rightarrow> int" where
  "ymd2ord year month day =
     days_before_year year + days_before_month year month + day"

definition DI400Y :: int where "DI400Y = days_before_year 401"
definition DI100Y :: int where "DI100Y = days_before_year 101"
definition DI4Y :: int where "DI4Y = days_before_year 5"

definition ord2ymd :: "int \<Rightarrow> int \<times> int \<times> int" where
  "ord2ymd n0 =
     (let n = n0 - 1;
          n400 = n div DI400Y; n = n mod DI400Y;
          year = n400 * 400 + 1;
          n100 = n div DI100Y; n = n mod DI100Y;
          n4 = n div DI4Y; n = n mod DI4Y;
          n1 = n div 365; n = n mod 365;
          year = year + (n100 * 100 + n4 * 4 + n1)
      in if n1 = 4 \<or> n100 = 4 then (year - 1, 12, 31)
         else
           let leapyear = (n1 = 3 \<and> (n4 \<noteq> 24 \<or> n100 = 3));
               month = drop_bit 5 (n + 50);
               preceding = DAYS_BEFORE_MONTH ! nat month
                             + (if month > 2 \<and> leapyear then 1 else 0)
           in if preceding > n
              then let month = month - 1;
                       preceding = preceding - (DAYS_IN_MONTH ! nat month
                                     + (if month = 2 \<and> leapyear then 1 else 0))
                   in (year, month, n - preceding + 1)
              else (year, month, n - preceding + 1))"

definition check_date_fields :: "int \<Rightarrow> int \<Rightarrow> int \<Rightarrow> py_error + (int \<times> int \<times> int)" where
  "check_date_fields year month day =
     (if \<not> (MINYEAR \<le> year \<and> year \<le> MAXYEAR) then Inl ValueError
      else if \<not> (1 \<le> month \<and> month \<le> 12) then Inl ValueError
      else if \<not> (1 \<le> day \<and> day \<le> days_in_month year month) then Inl ValueError
      else Inr (year, month, day))"

definition fits_c_int :: "int \<Rightarrow> bool" where
  "fits_c_int n = (- (2 ^ 31) \<le> n \<and> n < 2 ^ 31)"

text \<open>\<^verbatim>\<open>datetime(year, month, day)\<close>\<close>

definition datetime :: "int \<Rightarrow> int \<Rightarrow> int \<Rightarrow> py_error + (int \<times> int \<times> int)" where
  "datetime year month day =
     (if \<not> (fits_c_int year \<and> fits_c_int month \<and> fits_c_int day) then Inl OverflowError
      else check_date_fields year month day)"

text \<open>
  \<^verbatim>\<open>self + timedelta(days=d)\<close> at midnight: the ordinal plus \<open>d\<close>, converted back when
  it is in \<open>1..MAXORDINAL\<close>, \<^verbatim>\<open>OverflowError\<close> otherwise.
\<close>

definition datetime_add_days :: "int \<times> int \<times> int \<Rightarrow> int \<Rightarrow> py_error + (int \<times> int \<times> int)" where
  "datetime_add_days self d =
     (case self of (y, m, dd) \<Rightarrow>
        let days = ymd2ord y m dd + d
        in if 0 < days \<and> days \<le> MAXORDINAL
           then (case ord2ymd days of (y', m', d') \<Rightarrow> check_date_fields y' m' d')
           else Inl OverflowError)"

definition day_of :: "int \<times> int \<times> int \<Rightarrow> int" where
  "day_of dt = (case dt of (y, m, d) \<Rightarrow> d)"

text \<open>
  \<^verbatim>\<open>return (datetime(year, 2, 28) + timedelta(days=1)).day == 29\<close>
\<close>

definition leap_datetime :: "int \<Rightarrow> py_error + bool" where
  "leap_datetime year =
     (case datetime year 2 28 of
        Inl e \<Rightarrow> Inl e
      | Inr dt \<Rightarrow>
          (case datetime_add_days dt 1 of
             Inl e \<Rightarrow> Inl e
           | Inr dt' \<Rightarrow> Inr (day_of dt' = 29)))"

subsection \<open>The specification's words\<close>

text \<open>
  The Gregorian rule of the specification's glossary: divisible by 4, except centuries not
  divisible by 400.
\<close>

definition gregorian_rule :: "int \<Rightarrow> bool" where
  "gregorian_rule year = (4 dvd year \<and> \<not> (100 dvd year \<and> \<not> 400 dvd year))"

text \<open>The candidates of a list all return the same boolean for a year.\<close>

definition all_return_same :: "(int \<Rightarrow> py_error + bool) list \<Rightarrow> int \<Rightarrow> bool" where
  "all_return_same fs year = (\<exists>b. \<forall>f \<in> set fs. f year = Inr b)"

section \<open>The standard library: \<^verbatim>\<open>timeit\<close>, \<^verbatim>\<open>min\<close>, \<^verbatim>\<open>round\<close>\<close>

text \<open>
  The timer (\<^verbatim>\<open>time.perf_counter\<close>) is the environment of the program: \<open>clock t\<close> is the
  value of the \<open>t\<close>-th reading of the timer since the program started, and the state
  carries the number of readings taken so far. Durations are exact rationals standing for
  Python's floats. A candidate is a function from a year to a boolean or an exception; a
  timed statement is the outcome of the call it makes (the candidates are pure).
\<close>

type_synonym clock = "nat \<Rightarrow> rat"
type_synonym candidate = "int \<Rightarrow> py_error + bool"

definition default_number :: nat where "default_number = 1000000"
definition default_repeat :: nat where "default_repeat = 5"

text \<open>\<^verbatim>\<open>for _i in _it: {stmt}\<close>: the statement runs \<open>number\<close> times; an exception leaves the loop.\<close>

primrec timeit_loop :: "nat \<Rightarrow> py_error + bool \<Rightarrow> py_error + unit" where
  "timeit_loop 0 stmt = Inr ()"
| "timeit_loop (Suc n) stmt =
     (case stmt of Inl e \<Rightarrow> Inl e | Inr b \<Rightarrow> timeit_loop n stmt)"

text \<open>
  \<^verbatim>\<open>Timer.timeit(number)\<close>, through the template \<^verbatim>\<open>inner\<close>:
  \<^verbatim>\<open>_t0 = _timer(); for _i in _it: {stmt}; _t1 = _timer(); return _t1 - _t0\<close>.
  The result is the elapsed time of the whole loop and the new number of readings.
\<close>

definition Timer_timeit :: "clock \<Rightarrow> py_error + bool \<Rightarrow> nat \<Rightarrow> nat \<Rightarrow> py_error + rat \<times> nat" where
  "Timer_timeit clock stmt number t =
     (let t0 = clock t
      in case timeit_loop number stmt of
           Inl e \<Rightarrow> Inl e
         | Inr u \<Rightarrow> (let t1 = clock (t + 1) in Inr (t1 - t0, t + 2)))"

text \<open>
  \<^verbatim>\<open>Timer.repeat(repeat, number)\<close>:
  \<^verbatim>\<open>r = []; for i in range(repeat): t = self.timeit(number); r.append(t); return r\<close>.
\<close>

primrec repeat_loop :: "clock \<Rightarrow> py_error + bool \<Rightarrow> nat \<Rightarrow> nat \<Rightarrow> rat list \<Rightarrow> nat \<Rightarrow> py_error + rat list \<times> nat" where
  "repeat_loop clock stmt number 0 r t = Inr (r, t)"
| "repeat_loop clock stmt number (Suc k) r t =
     (case Timer_timeit clock stmt number t of
        Inl e \<Rightarrow> Inl e
      | Inr (x, t') \<Rightarrow> repeat_loop clock stmt number k (r @ [x]) t')"

definition Timer_repeat :: "clock \<Rightarrow> py_error + bool \<Rightarrow> nat \<Rightarrow> nat \<Rightarrow> nat \<Rightarrow> py_error + rat list \<times> nat" where
  "Timer_repeat clock stmt rep number t = repeat_loop clock stmt number rep [] t"

text \<open>\<^verbatim>\<open>min(xs)\<close> raises \<^verbatim>\<open>ValueError\<close> on an empty list.\<close>

definition py_min :: "rat list \<Rightarrow> py_error + rat" where
  "py_min xs = (if xs = [] then Inl ValueError else Inr (Min (set xs)))"

text \<open>
  \<^verbatim>\<open>round(x, ndigits)\<close> rounds to the nearest multiple of \<open>10 ^ (- ndigits)\<close>, a tie going
  to the even one; here on the exact value.
\<close>

definition round_half_even :: "rat \<Rightarrow> int" where
  "round_half_even q =
     (let f = \<lfloor>q\<rfloor>; d = q - of_int f
      in if d < 1 / 2 then f else if 1 / 2 < d then f + 1
         else if even f then f else f + 1)"

definition py_round :: "rat \<Rightarrow> nat \<Rightarrow> rat" where
  "py_round x ndigits = of_int (round_half_even (x * 10 ^ ndigits)) / 10 ^ ndigits"

section \<open>The result table and the effects of the scripts\<close>

text \<open>
  A \<^verbatim>\<open>DataFrame\<close> has its row labels, its column labels and one float per pair of labels;
  \<open>None\<close> is \<^verbatim>\<open>NaN\<close>, the value of a cell that has not been filled.
\<close>

record dataframe =
  index :: "string list"
  columns :: "string list"
  cells :: "string \<times> string \<Rightarrow> rat option"

text \<open>\<^verbatim>\<open>pd.DataFrame(np.nan, index=..., columns=...)\<close>\<close>

definition DataFrame_nan :: "string list \<Rightarrow> string list \<Rightarrow> dataframe" where
  "DataFrame_nan idx cols = \<lparr>index = idx, columns = cols, cells = (\<lambda>k. None)\<rparr>"

text \<open>
  \<^verbatim>\<open>df.loc[r, c] = v\<close> with two labels: the cell is set; a label the frame does not have
  yet is appended to its axis.
\<close>

definition loc_set :: "string \<Rightarrow> string \<Rightarrow> rat \<Rightarrow> dataframe \<Rightarrow> dataframe" where
  "loc_set r c v d =
     d\<lparr>index := (if r \<in> set (index d) then index d else index d @ [r]),
       columns := (if c \<in> set (columns d) then columns d else columns d @ [c]),
       cells := (cells d)((r, c) \<mapsto> v)\<rparr>"

text \<open>
  \<^verbatim>\<open>Index.get_slice_bound(label, side)\<close>, the position at which a label slice starts
  (\<open>right = False\<close>) or stops (\<open>right = True\<close>). A label of the index gives the position of
  its first occurrence, or the position after its last one, when its occurrences are next
  to each other, and \<^verbatim>\<open>KeyError\<close> when they are not. A label that is not in the index is
  placed by binary search when the index is monotonic (increasing, else decreasing), and is
  a \<^verbatim>\<open>KeyError\<close> otherwise. Labels compare as Python strings do, lexicographically.
\<close>

definition get_slice_bound :: "string list \<Rightarrow> string \<Rightarrow> bool \<Rightarrow> py_error + nat" where
  "get_slice_bound labels label right =
     (if label \<in> set labels
      then (let first = length (takeWhile (\<lambda>l. l \<noteq> label) labels);
                stop = length labels - length (takeWhile (\<lambda>l. l \<noteq> label) (rev labels))
            in if \<forall>l \<in> set (take (stop - first) (drop first labels)). l = label
               then Inr (if right then stop else first)
               else Inl KeyError)
      else if sorted labels then Inr (length (filter (\<lambda>l. l < label) labels))
      else if sorted (rev labels) then Inr (length (filter (\<lambda>l. label < l) labels))
      else Inl KeyError)"

text \<open>
  The labels of the slice \<^verbatim>\<open>start:stop\<close>, both ends included
  (\<^verbatim>\<open>Index.slice_locs\<close>, then \<^verbatim>\<open>labels[i:j]\<close>).
\<close>

definition slice_labels :: "string list \<Rightarrow> string \<Rightarrow> string \<Rightarrow> py_error + string list" where
  "slice_labels labels start stop =
     (case get_slice_bound labels start False of
        Inl e \<Rightarrow> Inl e
      | Inr i \<Rightarrow>
          (case get_slice_bound labels stop True of
             Inl e \<Rightarrow> Inl e
           | Inr j \<Rightarrow> Inr (take (j - i) (drop i labels))))"

text \<open>
  \<^verbatim>\<open>df.loc[r, start:stop] = vals\<close> with a list, on a frame of floats: one value per column
  of the slice; a list of one value is broadcast to every column of the slice; any other
  length is a \<^verbatim>\<open>ValueError\<close>.
\<close>

definition loc_set_slice :: "string \<Rightarrow> string \<Rightarrow> string \<Rightarrow> rat list \<Rightarrow> dataframe \<Rightarrow> py_error + dataframe" where
  "loc_set_slice r start stop vals d =
     (case slice_labels (columns d) start stop of
        Inl e \<Rightarrow> Inl e
      | Inr cs \<Rightarrow>
          if length vals \<noteq> length cs \<and> length vals \<noteq> 1 then Inl ValueError
          else Inr (d\<lparr>index := (if r \<in> set (index d) then index d else index d @ [r]),
                      cells := fold (\<lambda>(c, v) m. m((r, c) \<mapsto> v))
                                 (zip cs (if length vals = length cs then vals
                                          else replicate (length cs) (hd vals)))
                                 (cells d)\<rparr>))"

text \<open>
  What the scripts do to the outside: lines on the console and one figure saved to disk.
  A printed line is kept structured, not formatted.
\<close>

datatype printed =
    CellLine string string rat
  | RowLine string "rat list"
  | Text string
  | Markdown dataframe

datatype effect = Print printed | SaveFig string

record world =
  ticks :: nat
  effects :: "effect list"
  df :: dataframe

definition print :: "printed \<Rightarrow> world \<Rightarrow> world" where
  "print line w = w\<lparr>effects := effects w @ [Print line]\<rparr>"

definition row_headers :: "string list" where
  "row_headers = [''if-statements'', ''ternary'', ''datetime-add'', ''calendar-isleap'']"

definition col_headers :: "string list" where
  "col_headers = [''1900'', ''2000'', ''2019'', ''2020'']"

definition initial_world :: world where
  "initial_world = \<lparr>ticks = 0, effects = [], df = DataFrame_nan row_headers col_headers\<rparr>"

definition returns :: "(int \<Rightarrow> bool) \<Rightarrow> candidate" where
  "returns f year = Inr (f year)"

section \<open>Leap\_benchmarking.py: the measurement loop (lines 15-68)\<close>

definition loops :: nat where "loops = 1000000"

text \<open>
  The four setup strings define \<^verbatim>\<open>leap_year\<close> with the bodies of the four candidates above.
\<close>

definition setups :: "string \<rightharpoonup> candidate" where
  "setups = [''if-statements'' \<mapsto> returns leap_if_statements,
             ''ternary'' \<mapsto> returns leap_ternary,
             ''datetime-add'' \<mapsto> leap_datetime,
             ''calendar-isleap'' \<mapsto> returns leap_calendar]"

text \<open>
  One block of the loop body:
  \<^verbatim>\<open>val = timeit.timeit("leap_year(Y)", setups[descriptor], number=loops) / loops\<close>,
  \<^verbatim>\<open>print(f"{descriptor} {year}: {val}")\<close>, \<^verbatim>\<open>df.loc[descriptor, year] = val\<close>.
\<close>

definition measure_cell ::
  "clock \<Rightarrow> (string \<rightharpoonup> candidate) \<Rightarrow> string \<Rightarrow> int \<Rightarrow> string \<Rightarrow> world \<Rightarrow> py_error + world" where
  "measure_cell clock sts descriptor y year w =
     (case sts descriptor of
        None \<Rightarrow> Inl KeyError
      | Some leap_year \<Rightarrow>
          (case Timer_timeit clock (leap_year y) loops (ticks w) of
             Inl e \<Rightarrow> Inl e
           | Inr (timing, t') \<Rightarrow>
               (let val = timing / of_nat loops;
                    w1 = print (CellLine descriptor year val) (w\<lparr>ticks := t'\<rparr>)
                in Inr (w1\<lparr>df := loc_set descriptor year val (df w1)\<rparr>))))"

definition loop_body_I :: "clock \<Rightarrow> (string \<rightharpoonup> candidate) \<Rightarrow> string \<Rightarrow> world \<Rightarrow> py_error + world" where
  "loop_body_I clock sts descriptor w =
     (case measure_cell clock sts descriptor 1900 ''1900'' w of
        Inl e \<Rightarrow> Inl e
      | Inr w1 \<Rightarrow>
     (case measure_cell clock sts descriptor 2000 ''2000'' w1 of
        Inl e \<Rightarrow> Inl e
      | Inr w2 \<Rightarrow>
     (case measure_cell clock sts descriptor 2019 ''2019'' w2 of
        Inl e \<Rightarrow> Inl e
      | Inr w3 \<Rightarrow> measure_cell clock sts descriptor 2020 ''2020'' w3)))"

fun harness_I :: "clock \<Rightarrow> (string \<rightharpoonup> candidate) \<Rightarrow> string list \<Rightarrow> world \<Rightarrow> py_error + world" where
  "harness_I clock sts [] w = Inr w"
| "harness_I clock sts (descriptor # rest) w =
     (case loop_body_I clock sts descriptor w of
        Inl e \<Rightarrow> Inl e
      | Inr w' \<Rightarrow> harness_I clock sts rest w')"

definition run_I :: "clock \<Rightarrow> py_error + world" where
  "run_I clock = harness_I clock setups row_headers initial_world"

section \<open>Leap\_Benchmark\_II.py: the measurement loop (lines 43-51)\<close>

text \<open>The list \<^verbatim>\<open>functions\<close> of the script; the candidates that cannot raise are lifted.\<close>

definition functions_II :: "candidate list" where
  "functions_II = [returns leap_if_statements, returns leap_ternary, leap_datetime,
                returns leap_calendar]"

definition input_data :: "int list" where
  "input_data = [1900, 2000, 2019, 2020]"

text \<open>
  \<^verbatim>\<open>[round(min(timeit.repeat(lambda: func(data))), 3) for data in input_data]\<close>
\<close>

fun measure_row :: "clock \<Rightarrow> candidate \<Rightarrow> int list \<Rightarrow> nat \<Rightarrow> py_error + rat list \<times> nat" where
  "measure_row clock func [] t = Inr ([], t)"
| "measure_row clock func (data # rest) t =
     (case Timer_repeat clock (func data) default_repeat default_number t of
        Inl e \<Rightarrow> Inl e
      | Inr (r, t') \<Rightarrow>
          (case py_min r of
             Inl e \<Rightarrow> Inl e
           | Inr m \<Rightarrow>
               (case measure_row clock func rest t' of
                  Inl e \<Rightarrow> Inl e
                | Inr (vals, t'') \<Rightarrow> Inr (py_round m 3 # vals, t''))))"

text \<open>
  \<^verbatim>\<open>for func, title in zip(functions, row_headers):\<close> with the body
  \<^verbatim>\<open>val = [...]\<close>, \<^verbatim>\<open>print(f"{title} : {val}")\<close>, \<^verbatim>\<open>df.loc[title, '1900':'2020'] = val\<close>.
\<close>

fun harness_II :: "clock \<Rightarrow> (candidate \<times> string) list \<Rightarrow> int list \<Rightarrow> world \<Rightarrow> py_error + world" where
  "harness_II clock [] inputs w = Inr w"
| "harness_II clock ((func, title) # rest) inputs w =
     (case measure_row clock func inputs (ticks w) of
        Inl e \<Rightarrow> Inl e
      | Inr (val, t') \<Rightarrow>
          (let w1 = print (RowLine title val) (w\<lparr>ticks := t'\<rparr>)
           in case loc_set_slice title ''1900'' ''2020'' val (df w1) of
                Inl e \<Rightarrow> Inl e
              | Inr d \<Rightarrow> harness_II clock rest inputs (w1\<lparr>df := d\<rparr>)))"

definition run_II :: "clock \<Rightarrow> py_error + world" where
  "run_II clock = harness_II clock (zip functions_II row_headers) input_data initial_world"

section \<open>After the measurements (both scripts)\<close>

text \<open>
  The chart is drawn from the table and saved
  (\<^verbatim>\<open>plt.savefig('../leap_timeit_bar_plot-dark.svg', ...)\<close>), then a header line and the
  table are printed (\<^verbatim>\<open>print('\nDataframe in Markdown format:\n')\<close>,
  \<^verbatim>\<open>print(df.to_markdown(floatfmt=".1e"))\<close>). Only the effects are kept here.
\<close>

definition present :: "world \<Rightarrow> world" where
  "present w =
     print (Markdown (df w))
       (print (Text ''\<newline>Dataframe in Markdown format:\<newline>'')
          (w\<lparr>effects := effects w @ [SaveFig ''../leap_timeit_bar_plot-dark.svg'']\<rparr>))"

definition script_I :: "clock \<Rightarrow> py_error + world" where
  "script_I clock = (case run_I clock of Inl e \<Rightarrow> Inl e | Inr w \<Rightarrow> Inr (present w))"

definition script_II :: "clock \<Rightarrow> py_error + world" where
  "script_II clock = (case run_II clock of Inl e \<Rightarrow> Inl e | Inr w \<Rightarrow> Inr (present w))"

section \<open>Notions used to state the properties\<close>

text \<open>The time between the readings \<open>t\<close> and \<open>t + 1\<close> of the timer.\<close>

definition elapsed :: "clock \<Rightarrow> nat \<Rightarrow> rat" where
  "elapsed clock t = clock (t + 1) - clock t"

text \<open>
  The value one measurement computes when it starts at reading \<open>t\<close>: in
  Leap\_benchmarking.py the time of one loop of \<open>loops\<close> calls divided by \<open>loops\<close>; in
  Leap\_Benchmark\_II.py the least of the times of \<open>default_repeat\<close> loops, rounded to three
  decimals.
\<close>

definition measured_I :: "clock \<Rightarrow> nat \<Rightarrow> rat" where
  "measured_I clock t = elapsed clock t / of_nat loops"

definition measured_II :: "clock \<Rightarrow> nat \<Rightarrow> rat" where
  "measured_II clock t =
     py_round (Min ((\<lambda>k. elapsed clock (t + 2 * k)) ` {0 ..< default_repeat})) 3"


text \<open>
  The timer that these calls drive when nothing else takes time and every loop makes
  \<open>number\<close> calls: a loop reads the timer before its first call and after its last.
\<close>

definition clock_of_calls :: "(nat \<Rightarrow> rat) \<Rightarrow> nat \<Rightarrow> clock" where
  "clock_of_calls cost number t = sum cost {0 ..< ((t + 1) div 2) * number}"

text \<open>A concrete run: every call takes 1.0004 microseconds.\<close>

definition steady_cost :: "nat \<Rightarrow> rat" where
  "steady_cost k = 10004 / 10 ^ 10"

definition steady_clock :: clock where
  "steady_clock = clock_of_calls steady_cost default_number"


definition lines_printed :: "py_error + world \<Rightarrow> nat option" where
  "lines_printed res = (case res of Inl e \<Rightarrow> None | Inr w \<Rightarrow> Some (length (effects w)))"

definition measurements_recorded :: "py_error + world \<Rightarrow> nat option" where
  "measurements_recorded res =
     (case res of
        Inl e \<Rightarrow> None
      | Inr w \<Rightarrow> Some (length (filter (\<lambda>k. cells (df w) k \<noteq> None)
                                (List.product (index (df w)) (columns (df w))))))"

text \<open>The shape of a table: its row labels, its column labels, and which cells are filled.\<close>

definition shape :: "dataframe \<Rightarrow> string list \<times> string list \<times> (string \<times> string) set" where
  "shape d = (index d, columns d, dom (cells d))"

section \<open>The candidates decide the Gregorian rule\<close>

lemma gregorian_rule_mod:
  "gregorian_rule year = (year mod 4 = 0 \<and> (year mod 100 \<noteq> 0 \<or> year mod 400 = 0))"
  by (auto simp add: gregorian_rule_def mod_eq_0_iff_dvd)

lemma leap_ternary_eq: "leap_ternary year = leap_if_statements year"
proof -
  have "400 dvd year \<Longrightarrow> 100 dvd year" and "100 dvd year \<Longrightarrow> 4 dvd year"
    by presburger+
  then show ?thesis
    by (auto simp add: leap_ternary_def leap_if_statements_def mod_eq_0_iff_dvd)
qed

lemma leap_calendar_eq: "leap_calendar year = leap_if_statements year"
  by (simp add: leap_calendar_def isleap_def leap_if_statements_def)

lemma is_leap_eq: "is_leap year = leap_if_statements year"
  by (simp add: is_leap_def leap_if_statements_def)

text \<open>
  C10. For every integer year the if-statement, ternary and calendar candidates are equal
  to each other and to the Gregorian rule (divisible by 4, except centuries not divisible
  by 400).
\<close>

theorem leap_candidates_refine_gregorian_rule:
  "leap_if_statements year = gregorian_rule year
   \<and> leap_ternary year = gregorian_rule year
   \<and> leap_calendar year = gregorian_rule year"
  by (simp add: leap_ternary_eq leap_calendar_eq)
    (simp add: leap_if_statements_def gregorian_rule_mod)

theorem leap_candidates_refine_gregorian_rule_witness:
  "leap_if_statements 1900 = gregorian_rule 1900 \<and> \<not> gregorian_rule 1900
   \<and> leap_ternary 2000 = gregorian_rule 2000 \<and> gregorian_rule 2000
   \<and> leap_calendar (- 4) = gregorian_rule (- 4) \<and> gregorian_rule (- 4)"
  using leap_candidates_refine_gregorian_rule [of 1900]
    leap_candidates_refine_gregorian_rule [of 2000]
    leap_candidates_refine_gregorian_rule [of "- 4"]
  by (simp add: gregorian_rule_def)

section \<open>The date arithmetic of the datetime candidate\<close>

text \<open>
  A year minus one is \<open>400 a + 100 b + 4 c + d\<close> with \<open>b < 4\<close>, \<open>c < 25\<close>, \<open>d < 4\<close>: the
  digits that \<open>ord2ymd\<close> recovers from the ordinal.
\<close>

lemma DI_vals: "DI400Y = 146097" "DI100Y = 36524" "DI4Y = 1461"
  by (simp_all add: DI400Y_def DI100Y_def DI4Y_def days_before_year_def)

lemma year_decomp:
  fixes y1 :: int
  obtains a b c d where "y1 = 400 * a + 100 * b + 4 * c + d"
    "0 \<le> b" "b < 4" "0 \<le> c" "c < 25" "0 \<le> d" "d < 4"
proof -
  let ?a = "y1 div 400" and ?r = "y1 mod 400"
  let ?b = "?r div 100" and ?r2 = "?r mod 100"
  let ?c = "?r2 div 4" and ?d = "?r2 mod 4"
  have 1: "y1 = 400 * ?a + 100 * ?b + 4 * ?c + ?d" by simp
  have "0 \<le> ?r" "?r < 400" by simp_all
  then have 2: "0 \<le> ?b" "?b < 4"
    by (simp_all add: div_less_iff_less_mult pos_imp_zdiv_nonneg_iff)
  have "0 \<le> ?r2" "?r2 < 100" by simp_all
  then have 3: "0 \<le> ?c" "?c < 25"
    by (simp_all add: div_less_iff_less_mult pos_imp_zdiv_nonneg_iff)
  have 4: "0 \<le> ?d" "?d < 4" by simp_all
  from 1 2 3 4 show thesis by (rule that)
qed

lemma days_before_year_decomp:
  assumes "y - 1 = 400 * a + 100 * b + 4 * c + d"
    "0 \<le> b" "b < 4" "0 \<le> c" "c < 25" "0 \<le> d" "d < 4"
  shows "days_before_year y = 146097 * a + 36524 * b + 1461 * c + 365 * d"
proof -
  have d4: "(y - 1) div 4 = 100 * a + 25 * b + c"
    by (rule int_div_pos_eq [where r = d]) (use assms in auto)
  have d100: "(y - 1) div 100 = 4 * a + b"
    by (rule int_div_pos_eq [where r = "4 * c + d"]) (use assms in auto)
  have d400: "(y - 1) div 400 = a"
    by (rule int_div_pos_eq [where r = "100 * b + 4 * c + d"]) (use assms in auto)
  show ?thesis
    unfolding days_before_year_def Let_def d4 d100 d400 using assms(1) by simp
qed

lemma mod_zero_iff_top:
  fixes k q r :: int
  assumes "y = k * q + r" "0 < r" "r \<le> k"
  shows "y mod k = 0 \<longleftrightarrow> r = k"
proof (cases "r = k")
  case True
  then have "y = k * (q + 1)" using assms(1) by (simp add: algebra_simps)
  then show ?thesis using True by simp
next
  case False
  then have "r < k" using assms by simp
  then have "y mod k = r"
    using assms by (intro int_mod_pos_eq [where q = q]) auto
  then show ?thesis using assms False by simp
qed

lemma is_leap_decomp:
  assumes "y - 1 = 400 * a + 100 * b + 4 * c + d"
    "0 \<le> b" "b < 4" "0 \<le> c" "c < 25" "0 \<le> d" "d < 4"
  shows "is_leap y = (d = 3 \<and> (c \<noteq> 24 \<or> b = 3))"
proof -
  have m4: "y mod 4 = 0 \<longleftrightarrow> d + 1 = 4"
    by (rule mod_zero_iff_top [where q = "100 * a + 25 * b + c"]) (use assms in auto)
  have m100: "y mod 100 = 0 \<longleftrightarrow> 4 * c + d + 1 = 100"
    by (rule mod_zero_iff_top [where q = "4 * a + b"]) (use assms in auto)
  have m400: "y mod 400 = 0 \<longleftrightarrow> 100 * b + 4 * c + d + 1 = 400"
    by (rule mod_zero_iff_top [where q = a]) (use assms in auto)
  show ?thesis
    unfolding is_leap_def m4 m100 m400 using assms by auto
qed

text \<open>The day after February 28 is February 29 in a leap year and March 1 otherwise.\<close>

lemma ord2ymd_feb28_succ:
  "ord2ymd (ymd2ord y 2 28 + 1) = (if is_leap y then (y, 2, 29) else (y, 3, 1))"
proof -
  obtain a b c d where dec: "y - 1 = 400 * a + 100 * b + 4 * c + d"
    "0 \<le> b" "b < 4" "0 \<le> c" "c < 25" "0 \<le> d" "d < 4"
    by (rule year_decomp)
  have dby: "days_before_year y = 146097 * a + 36524 * b + 1461 * c + 365 * d"
    by (rule days_before_year_decomp [OF dec])
  have leap: "is_leap y = (d = 3 \<and> (c \<noteq> 24 \<or> b = 3))"
    by (rule is_leap_decomp [OF dec])
  have ord: "ymd2ord y 2 28 + 1 - 1 = 146097 * a + (36524 * b + 1461 * c + 365 * d + 59)"
    by (simp add: ymd2ord_def days_before_month_def DAYS_BEFORE_MONTH_def dby)
  have s400: "(ymd2ord y 2 28 + 1 - 1) div 146097 = a"
    "(ymd2ord y 2 28 + 1 - 1) mod 146097 = 36524 * b + 1461 * c + 365 * d + 59"
    unfolding ord
    by (rule int_div_pos_eq [where r = "36524 * b + 1461 * c + 365 * d + 59"]
             int_mod_pos_eq [where q = a]; use dec in simp)+
  have s100: "(36524 * b + 1461 * c + 365 * d + 59) div 36524 = b"
    "(36524 * b + 1461 * c + 365 * d + 59) mod 36524 = 1461 * c + 365 * d + 59"
    by (rule int_div_pos_eq [where r = "1461 * c + 365 * d + 59"]
             int_mod_pos_eq [where q = b]; use dec in simp)+
  have s4: "(1461 * c + 365 * d + 59) div 1461 = c"
    "(1461 * c + 365 * d + 59) mod 1461 = 365 * d + 59"
    by (rule int_div_pos_eq [where r = "365 * d + 59"]
             int_mod_pos_eq [where q = c]; use dec in simp)+
  have s1: "(365 * d + 59) div 365 = d" "(365 * d + 59) mod 365 = 59"
    by (rule int_div_pos_eq [where r = 59] int_mod_pos_eq [where q = d]; use dec in simp)+
  have yr: "a * 400 + 1 + (b * 100 + c * 4 + d) = y" using dec(1) by simp
  have m: "drop_bit 5 (59 + 50 :: int) = 3" by (simp add: drop_bit_eq_div)
  show ?thesis
    unfolding ord2ymd_def DI_vals Let_def s400 s100 s4 s1 yr m leap
    using dec by (simp add: DAYS_BEFORE_MONTH_def DAYS_IN_MONTH_def)
qed

lemma ymd2ord_feb28_bounds:
  assumes "1 \<le> y" "y \<le> 9999"
  shows "0 < ymd2ord y 2 28 + 1" "ymd2ord y 2 28 + 1 \<le> MAXORDINAL"
proof -
  have lo: "0 \<le> (y - 1) div 4 - (y - 1) div 100"
    using assms zdiv_mono2 [of "y - 1" 4 100] by simp
  have lo2: "0 \<le> (y - 1) div 400" using assms by (simp add: pos_imp_zdiv_nonneg_iff)
  have hi: "(y - 1) div 4 \<le> 2499" using assms zdiv_mono1 [of "y - 1" 9998 4] by simp
  have hi2: "(y - 1) div 400 \<le> 24" using assms zdiv_mono1 [of "y - 1" 9998 400] by simp
  have hi3: "0 \<le> (y - 1) div 100" using assms by (simp add: pos_imp_zdiv_nonneg_iff)
  show "0 < ymd2ord y 2 28 + 1"
    using assms lo lo2
    by (simp add: ymd2ord_def days_before_year_def days_before_month_def DAYS_BEFORE_MONTH_def
        Let_def)
  show "ymd2ord y 2 28 + 1 \<le> MAXORDINAL"
    using assms hi hi2 hi3
    by (simp add: ymd2ord_def days_before_year_def days_before_month_def DAYS_BEFORE_MONTH_def
        MAXORDINAL_def Let_def)
qed

lemma leap_datetime_in_range:
  assumes "1 \<le> y" "y \<le> 9999"
  shows "leap_datetime y = Inr (is_leap y)"
proof -
  have c: "datetime y 2 28 = Inr (y, 2, 28)"
    using assms
    by (simp add: datetime_def fits_c_int_def check_date_fields_def MINYEAR_def MAXYEAR_def
        days_in_month_def DAYS_IN_MONTH_def)
  have a: "datetime_add_days (y, 2, 28) 1 =
             (if is_leap y then Inr (y, 2, 29) else Inr (y, 3, 1))"
    using assms ymd2ord_feb28_bounds [OF assms]
    by (simp add: datetime_add_days_def ord2ymd_feb28_succ check_date_fields_def
        MINYEAR_def MAXYEAR_def days_in_month_def DAYS_IN_MONTH_def)
  show ?thesis
    by (simp add: leap_datetime_def c a day_of_def)
qed

lemma leap_datetime_out_of_range:
  assumes "y < 1 \<or> 9999 < y"
  shows "leap_datetime y = Inl (if fits_c_int y then ValueError else OverflowError)"
  using assms
  by (auto simp add: leap_datetime_def datetime_def check_date_fields_def MINYEAR_def
      MAXYEAR_def fits_c_int_def)

lemma candidates_I_eq: "List.map_filter setups row_headers = functions_II"
  by (simp add: List.map_filter_def setups_def row_headers_def functions_II_def)

text \<open>
  C1. Each of the four candidates, on the four years under test, returns false for 1900,
  true for 2000, false for 2019 and true for 2020; so do the entries of \<open>functions_II\<close> and
  of \<open>setups\<close>, the candidates as the two scripts time them.
\<close>

theorem candidates_on_years_under_test:
  "map leap_if_statements input_data = [False, True, False, True]
   \<and> map leap_ternary input_data = [False, True, False, True]
   \<and> map leap_datetime input_data = [Inr False, Inr True, Inr False, Inr True]
   \<and> map leap_calendar input_data = [False, True, False, True]
   \<and> map (\<lambda>f. map f input_data) functions_II
       = replicate 4 [Inr False, Inr True, Inr False, Inr True]
   \<and> map (\<lambda>d. map_option (\<lambda>f. map f [1900, 2000, 2019, 2020]) (setups d)) row_headers
       = replicate 4 (Some [Inr False, Inr True, Inr False, Inr True])"
  by (simp add: input_data_def functions_II_def setups_def row_headers_def returns_def
      leap_datetime_in_range is_leap_def leap_if_statements_def leap_ternary_def
      leap_calendar_def isleap_def numeral_eq_Suc)

theorem candidates_on_years_under_test_witness:
  "leap_datetime 1900 = Inr False \<and> leap_datetime 2000 = Inr True"
  using candidates_on_years_under_test by (simp add: input_data_def)

text \<open>
  C2, as stated: for every integer year the four candidates return the same boolean.
  It fails at year 0, where the datetime candidate raises and the others return true.
\<close>

theorem all_return_same_counterexample: "\<not> all_return_same functions_II 0"
  by (simp add: all_return_same_def functions_II_def returns_def leap_datetime_out_of_range
      fits_c_int_def)

text \<open>
  C2, amended: for every integer year from 1 to 9999 the four candidates return the same
  boolean, in the list of Leap\_Benchmark\_II.py and in the setups of Leap\_benchmarking.py.
\<close>

theorem all_return_same_in_range:
  assumes "1 \<le> year" "year \<le> 9999"
  shows "all_return_same functions_II year
         \<and> all_return_same (List.map_filter setups row_headers) year"
proof -
  have "leap_datetime year = Inr (leap_if_statements year)"
    using assms by (simp add: leap_datetime_in_range is_leap_eq)
  then have "all_return_same functions_II year"
    by (auto simp add: all_return_same_def functions_II_def returns_def
        leap_ternary_eq leap_calendar_eq)
  then show ?thesis by (simp add: candidates_I_eq)
qed

theorem all_return_same_in_range_witness:
  "(1::int) \<le> 2020 \<and> (2020::int) \<le> 9999 \<and> all_return_same functions_II 2020"
  using all_return_same_in_range [of 2020] by simp

text \<open>
  C9, as stated: the datetime candidate raises \<^verbatim>\<open>ValueError\<close> for every integer year
  outside 1..9999. For the year \<open>2 ^ 31\<close> the exception is \<^verbatim>\<open>OverflowError\<close>.
\<close>

theorem leap_datetime_ValueError_counterexample:
  "(2147483648 < (1::int) \<or> (9999::int) < 2147483648)
   \<and> leap_datetime 2147483648 = Inl OverflowError
   \<and> leap_datetime 2147483648 \<noteq> Inl ValueError"
  by (simp add: leap_datetime_out_of_range fits_c_int_def)

text \<open>
  C9, amended: the datetime candidate raises an exception for every integer year outside
  1..9999 (\<^verbatim>\<open>ValueError\<close> when the year fits a C \<^verbatim>\<open>int\<close>, \<^verbatim>\<open>OverflowError\<close> when it does
  not), the three other candidates return a boolean for every integer year, and the four
  agree exactly on the years 1..9999.
\<close>

theorem leap_datetime_only_in_1_9999:
  "(year < 1 \<or> 9999 < year \<longrightarrow>
      leap_datetime year = Inl (if fits_c_int year then ValueError else OverflowError))
   \<and> returns leap_if_statements year = Inr (leap_if_statements year)
   \<and> returns leap_ternary year = Inr (leap_if_statements year)
   \<and> returns leap_calendar year = Inr (leap_if_statements year)
   \<and> (all_return_same functions_II year \<longleftrightarrow> 1 \<le> year \<and> year \<le> 9999)"
proof -
  have g: "leap_ternary year = leap_if_statements year"
    "leap_calendar year = leap_if_statements year"
    by (simp_all add: leap_ternary_eq leap_calendar_eq)
  show ?thesis
  proof (cases "1 \<le> year \<and> year \<le> 9999")
    case True
    then have "leap_datetime year = Inr (leap_if_statements year)"
      by (simp add: leap_datetime_in_range is_leap_eq)
    with True show ?thesis
      by (auto simp add: all_return_same_def functions_II_def returns_def g)
  next
    case False
    then have "leap_datetime year = Inl (if fits_c_int year then ValueError else OverflowError)"
      by (intro leap_datetime_out_of_range) auto
    with False show ?thesis
      by (auto simp add: all_return_same_def functions_II_def returns_def g)
  qed
qed

theorem leap_datetime_only_in_1_9999_witness:
  "leap_datetime 0 = Inl ValueError \<and> leap_datetime 10000 = Inl ValueError
   \<and> leap_datetime (- (2 ^ 40)) = Inl OverflowError
   \<and> \<not> all_return_same functions_II 10000 \<and> all_return_same functions_II 9999"
  using leap_datetime_only_in_1_9999 [of 0] leap_datetime_only_in_1_9999 [of 10000]
    leap_datetime_only_in_1_9999 [of 9999] leap_datetime_only_in_1_9999 [of "- (2 ^ 40)"]
  by (simp add: fits_c_int_def)

section \<open>The timing loops\<close>

lemma timeit_loop_Inr [simp]: "timeit_loop n (Inr b) = Inr ()"
  by (induction n) simp_all

lemma timeit_loop_Inl: "0 < n \<Longrightarrow> timeit_loop n (Inl e) = Inl e"
  by (cases n) simp_all

lemma Timer_timeit_Inr [simp]:
  "Timer_timeit clock (Inr b) number t = Inr (elapsed clock t, t + 2)"
  by (simp add: Timer_timeit_def elapsed_def)

lemma Timer_timeit_Inl: "0 < number \<Longrightarrow> Timer_timeit clock (Inl e) number t = Inl e"
  by (simp add: Timer_timeit_def timeit_loop_Inl)

lemma Timer_timeit_result:
  "Timer_timeit clock stmt number t = Inr (x, t') \<Longrightarrow> x = elapsed clock t \<and> t' = t + 2"
  by (auto simp add: Timer_timeit_def Let_def elapsed_def split: sum.splits)

lemma repeat_loop_Inr:
  "repeat_loop clock (Inr b) number k r t =
     Inr (r @ map (\<lambda>i. elapsed clock (t + 2 * i)) [0 ..< k], t + 2 * k)"
proof (induction k arbitrary: r t)
  case 0
  then show ?case by simp
next
  case (Suc k)
  have "map (\<lambda>i. elapsed clock (t + 2 * i)) [0 ..< Suc k] =
        elapsed clock t # map (\<lambda>i. elapsed clock (t + 2 + 2 * i)) [0 ..< k]"
    by (simp add: upt_rec [of 0 "Suc k"] map_Suc_upt [symmetric] del: upt_Suc)
  then show ?case
    using Suc.IH [of "r @ [elapsed clock t]" "t + 2"] by simp
qed

lemma repeat_loop_Inl:
  "0 < number \<Longrightarrow> 0 < k \<Longrightarrow> repeat_loop clock (Inl e) number k r t = Inl e"
  by (cases k) (simp_all add: Timer_timeit_Inl)

lemma Timer_repeat_Inr:
  "Timer_repeat clock (Inr b) rep number t =
     Inr (map (\<lambda>i. elapsed clock (t + 2 * i)) [0 ..< rep], t + 2 * rep)"
  by (simp add: Timer_repeat_def repeat_loop_Inr)

lemma Timer_repeat_default_Inl:
  "Timer_repeat clock (Inl e) default_repeat default_number t = Inl e"
  by (simp add: Timer_repeat_def repeat_loop_Inl default_repeat_def default_number_def)

lemma measure_cell_step:
  assumes "measure_cell clock sts d y yr w = Inr w'"
  shows "effects w' = effects w @ [Print (CellLine d yr (measured_I clock (ticks w)))]
         \<and> cells (df w') (d, yr) = Some (measured_I clock (ticks w))
         \<and> ticks w' = ticks w + 2"
proof -
  from assms obtain f x t' where f: "sts d = Some f"
    and t: "Timer_timeit clock (f y) loops (ticks w) = Inr (x, t')"
    by (auto simp add: measure_cell_def split: option.splits sum.splits prod.splits)
  from Timer_timeit_result [OF t] have x: "x = elapsed clock (ticks w)" "t' = ticks w + 2"
    by simp_all
  show ?thesis
    using assms
    by (auto simp add: measure_cell_def f t x Let_def print_def loc_set_def measured_I_def)
qed

lemma measure_row_ok:
  assumes "\<forall>x \<in> set inputs. \<exists>b. func x = Inr b"
  shows "measure_row clock func inputs t =
           Inr (map (\<lambda>j. measured_II clock (t + 10 * j)) [0 ..< length inputs],
                t + 10 * length inputs)"
  using assms
proof (induction inputs arbitrary: t)
  case Nil
  then show ?case by simp
next
  case (Cons x xs)
  from Cons.prems obtain b where b: "func x = Inr b" by auto
  have ih: "measure_row clock func xs (t + 10) =
           Inr (map (\<lambda>j. measured_II clock (t + 10 + 10 * j)) [0 ..< length xs],
                t + 10 + 10 * length xs)"
    using Cons.IH [of "t + 10"] Cons.prems by simp
  have m: "map (\<lambda>j. measured_II clock (t + 10 * j)) [0 ..< length (x # xs)] =
        measured_II clock t # map (\<lambda>j. measured_II clock (t + 10 + 10 * j)) [0 ..< length xs]"
    by (simp add: upt_rec [of 0 "Suc (length xs)"] map_Suc_upt [symmetric] add.assoc
        del: upt_Suc)
  show ?case
    unfolding m
    by (simp add: b Timer_repeat_Inr py_min_def ih default_repeat_def measured_II_def)
qed

lemma measure_row_raises:
  assumes "x \<in> set inputs" "func x = Inl e"
  shows "\<exists>x' e'. x' \<in> set inputs \<and> func x' = Inl e' \<and> measure_row clock func inputs t = Inl e'"
  using assms
proof (induction inputs arbitrary: t)
  case Nil
  then show ?case by simp
next
  case (Cons a xs)
  show ?case
  proof (cases "func a")
    case (Inl e')
    then show ?thesis by (auto simp add: Timer_repeat_default_Inl)
  next
    case (Inr b)
    with Cons.prems have "x \<in> set xs" by auto
    from Cons.IH [OF this Cons.prems(2), of "t + 10"]
    obtain x' e' where "x' \<in> set xs" "func x' = Inl e'"
      "measure_row clock func xs (t + 10) = Inl e'" by blast
    then show ?thesis
      by (auto simp add: Inr Timer_repeat_Inr py_min_def default_repeat_def)
  qed
qed

lemma slice_col_headers: "slice_labels col_headers ''1900'' ''2020'' = Inr col_headers"
  by (simp add: slice_labels_def get_slice_bound_def col_headers_def Let_def)

lemma Timer_repeat_default:
  "Timer_repeat clock (Inr b) default_repeat default_number t =
     Inr (map (\<lambda>i. elapsed clock (t + 2 * i)) [0 ..< default_repeat], t + 10)"
  by (simp add: Timer_repeat_Inr) (simp add: default_repeat_def)

lemma py_min_default:
  "py_min (map f [0 ..< default_repeat]) = Inr (Min (f ` {0 ..< default_repeat}))"
  by (simp add: py_min_def default_repeat_def)

section \<open>The two runs in closed form\<close>

text \<open>
  With the candidates of the scripts no exception is raised, so a run is determined by the
  timer: measurement number \<open>m\<close> (row-major) starts at reading \<open>2 m\<close> in
  Leap\_benchmarking.py and at reading \<open>10 m\<close> in Leap\_Benchmark\_II.py.
\<close>

lemma run_I_result:
  "run_I clock =
     Inr \<lparr>ticks = 32,
          effects = map (\<lambda>(m, r, c). Print (CellLine r c (measured_I clock (2 * m))))
                      (enumerate 0 (List.product row_headers col_headers)),
          df = \<lparr>index = row_headers, columns = col_headers,
                 cells = map_of (rev (map (\<lambda>(m, k). (k, measured_I clock (2 * m)))
                           (enumerate 0 (List.product row_headers col_headers))))\<rparr>\<rparr>"
  unfolding run_I_def
  by (simp add: loop_body_I_def measure_cell_def setups_def measured_I_def
     returns_def leap_datetime_in_range Let_def
     initial_world_def DataFrame_nan_def loc_set_def print_def
     row_headers_def col_headers_def del: add_2_eq_Suc add_2_eq_Suc')

lemma run_II_result:
  "run_II clock =
     Inr \<lparr>ticks = 160,
          effects = map (\<lambda>(i, r). Print (RowLine r
                          (map (\<lambda>j. measured_II clock (10 * (4 * i + j))) [0 ..< 4])))
                      (enumerate 0 row_headers),
          df = \<lparr>index = row_headers, columns = col_headers,
                 cells = map_of (rev (map (\<lambda>(m, k). (k, measured_II clock (10 * m)))
                           (enumerate 0 (List.product row_headers col_headers))))\<rparr>\<rparr>"
  unfolding run_II_def functions_II_def
  by (simp add: Timer_repeat_default py_min_default measured_II_def
     input_data_def returns_def leap_datetime_in_range 
     initial_world_def DataFrame_nan_def loc_set_slice_def
     slice_col_headers [unfolded col_headers_def] print_def
     row_headers_def col_headers_def upt_rec [of _ 4] del: upt_Suc)

lemma run_I_succeeds: "\<exists>w. run_I clock = Inr w"
  by (simp add: run_I_result)

lemma run_II_succeeds: "\<exists>w. run_II clock = Inr w"
  by (simp add: run_II_result)

lemma dom_table:
  "dom (map_of (rev (map (\<lambda>(m, k). (k, f m)) (enumerate n xs)))) = set xs"
proof -
  have "map fst (map (\<lambda>(m, k). (k, f m)) (enumerate n xs)) = map snd (enumerate n xs)"
    by (simp add: split_def comp_def)
  then have "fst ` set (map (\<lambda>(m, k). (k, f m)) (enumerate n xs)) = set xs"
    by (metis map_snd_enumerate set_map)
  then show ?thesis
    by (simp only: dom_map_of_conv_image_fst set_rev)
qed

lemma run_I_fields:
  assumes "run_I clock = Inr w"
  shows "ticks w = 32"
    and "effects w = map (\<lambda>(m, r, c). Print (CellLine r c (measured_I clock (2 * m))))
                      (enumerate 0 (List.product row_headers col_headers))"
    and "index (df w) = row_headers" and "columns (df w) = col_headers"
    and "cells (df w) = map_of (rev (map (\<lambda>(m, k). (k, measured_I clock (2 * m)))
                           (enumerate 0 (List.product row_headers col_headers))))"
  using assms unfolding run_I_result by auto

lemma run_II_fields:
  assumes "run_II clock = Inr w"
  shows "ticks w = 160"
    and "effects w = map (\<lambda>(i, r). Print (RowLine r
                          (map (\<lambda>j. measured_II clock (10 * (4 * i + j))) [0 ..< 4])))
                      (enumerate 0 row_headers)"
    and "index (df w) = row_headers" and "columns (df w) = col_headers"
    and "cells (df w) = map_of (rev (map (\<lambda>(m, k). (k, measured_II clock (10 * m)))
                           (enumerate 0 (List.product row_headers col_headers))))"
  using assms unfolding run_II_result by auto

lemma run_I_shape:
  "run_I clock = Inr w \<Longrightarrow> shape (df w) = (row_headers, col_headers, set row_headers \<times> set col_headers)"
  by (simp only: shape_def run_I_fields dom_table set_product)

lemma run_II_shape:
  "run_II clock = Inr w \<Longrightarrow> shape (df w) = (row_headers, col_headers, set row_headers \<times> set col_headers)"
  by (simp only: shape_def run_II_fields dom_table set_product)

lemma pairs_below_4:
  "(\<forall>i<4::nat. \<forall>j<4::nat. P i j) \<longleftrightarrow>
     P 0 0 \<and> P 0 1 \<and> P 0 2 \<and> P 0 3 \<and> P 1 0 \<and> P 1 1 \<and> P 1 2 \<and> P 1 3 \<and>
     P 2 0 \<and> P 2 1 \<and> P 2 2 \<and> P 2 3 \<and> P 3 0 \<and> P 3 1 \<and> P 3 2 \<and> P 3 3"
proof -
  have "\<And>Q. (\<forall>i<4::nat. Q i) \<longleftrightarrow> Q 0 \<and> Q 1 \<and> Q 2 \<and> Q 3"
    by (auto simp add: less_Suc_eq numeral_eq_Suc)
  then show ?thesis by simp
qed


lemma run_II_cells:
  assumes "run_II clock = Inr w" "i < 4" "j < 4"
  shows "cells (df w) (row_headers ! i, col_headers ! j) = Some (measured_II clock (10 * (4 * i + j)))"
proof -
  have "\<forall>i<4. \<forall>j<4. cells (df w) (row_headers ! i, col_headers ! j)
          = Some (measured_II clock (10 * (4 * i + j)))"
    unfolding pairs_below_4
    using assms(1) unfolding run_II_result
    by (auto simp add: row_headers_def col_headers_def)
  with assms show ?thesis by simp
qed

section \<open>The steady run\<close>

lemma steady_clock_eq: "steady_clock t = of_nat ((t + 1) div 2) * (2501 / 2500)"
  by (simp add: steady_clock_def clock_of_calls_def steady_cost_def default_number_def)

lemma elapsed_steady_clock: "even t \<Longrightarrow> elapsed steady_clock t = 2501 / 2500"
  by (auto simp add: elapsed_def steady_clock_eq algebra_simps elim!: evenE)

lemma py_round_steady: "py_round (2501 / 2500) 3 = 1"
proof -
  have "\<lfloor>5002 / 5 :: rat\<rfloor> = 1000" by (rule floor_unique) simp_all
  then show ?thesis by (simp add: py_round_def round_half_even_def Let_def)
qed

lemma measured_II_steady_clock: "even t \<Longrightarrow> measured_II steady_clock t = 1"
proof -
  assume "even t"
  then have "(\<lambda>k. elapsed steady_clock (t + 2 * k)) ` {0 ..< default_repeat} = {2501 / 2500}"
    by (auto simp add: elapsed_steady_clock default_repeat_def intro!: image_eqI [where x = 0])
  then show ?thesis by (simp add: measured_II_def py_round_steady)
qed



section \<open>A timer that never goes back\<close>

text \<open>With a monotonic timer no measurement is negative.\<close>

lemma round_half_even_nonneg: "0 \<le> q \<Longrightarrow> 0 \<le> round_half_even q"
  by (simp add: round_half_even_def Let_def)

lemma py_round_nonneg: "0 \<le> x \<Longrightarrow> 0 \<le> py_round x n"
  by (simp add: py_round_def round_half_even_nonneg)

lemma measured_nonneg:
  assumes "\<And>t. clock t \<le> clock (t + 1)"
  shows "0 \<le> measured_I clock t" and "0 \<le> measured_II clock t"
proof -
  have e: "0 \<le> elapsed clock t" for t
    using assms [of t] by (simp add: elapsed_def)
  show "0 \<le> measured_I clock t"
    by (simp add: measured_I_def e)
  have "0 \<le> Min ((\<lambda>k. elapsed clock (t + 2 * k)) ` {0 ..< default_repeat})"
    by (subst Min_ge_iff) (auto simp add: e default_repeat_def)
  then show "0 \<le> measured_II clock t"
    by (simp add: measured_II_def py_round_nonneg)
qed

lemma cells_table_values:
  assumes "map_of (rev (map (\<lambda>(m, k). (k, f m)) (enumerate n xs))) k = Some v"
  shows "\<exists>m. v = f m"
proof -
  from map_of_SomeD [OF assms] show ?thesis by auto
qed

text \<open>
  C6. Every duration recorded in the result table is a non-negative finite number: with
  the timer of the scripts, \<^verbatim>\<open>time.perf_counter\<close>, which never goes back, every one of the
  sixteen cells of either script holds a value (it is not \<^verbatim>\<open>NaN\<close>), and every value held
  is at least 0. The rationals of the model stand for the floats of the scripts.
\<close>

theorem recorded_durations_nonneg:
  assumes "\<forall>t. clock t \<le> clock (t + 1)"
  shows "\<exists>w1 w2. run_I clock = Inr w1 \<and> run_II clock = Inr w2
     \<and> (\<forall>r \<in> set row_headers. \<forall>c \<in> set col_headers.
           (\<exists>v. cells (df w1) (r, c) = Some v \<and> 0 \<le> v)
           \<and> (\<exists>v. cells (df w2) (r, c) = Some v \<and> 0 \<le> v))
     \<and> (\<forall>k v. cells (df w1) k = Some v \<longrightarrow> 0 \<le> v)
     \<and> (\<forall>k v. cells (df w2) k = Some v \<longrightarrow> 0 \<le> v)"
proof -
  have mono: "clock t \<le> clock (t + 1)" for t using assms by simp
  obtain w1 where w1: "run_I clock = Inr w1" using run_I_succeeds by blast
  obtain w2 where w2: "run_II clock = Inr w2" using run_II_succeeds by blast
  have n1: "0 \<le> v" if "cells (df w1) k = Some v" for k v
  proof -
    from that cells_table_values [of "\<lambda>m. measured_I clock (2 * m)" 0 _ k v]
    obtain m where "v = measured_I clock (2 * m)"
      unfolding run_I_fields(5) [OF w1] by blast
    then show ?thesis using measured_nonneg(1) [of clock, OF mono] by simp
  qed
  have n2: "0 \<le> v" if "cells (df w2) k = Some v" for k v
  proof -
    from that cells_table_values [of "\<lambda>m. measured_II clock (10 * m)" 0 _ k v]
    obtain m where "v = measured_II clock (10 * m)"
      unfolding run_II_fields(5) [OF w2] by blast
    then show ?thesis using measured_nonneg(2) [of clock, OF mono] by simp
  qed
  have d: "dom (cells (df w1)) = set row_headers \<times> set col_headers"
    "dom (cells (df w2)) = set row_headers \<times> set col_headers"
    using run_I_shape [OF w1] run_II_shape [OF w2] by (simp_all add: shape_def)
  have f: "(\<exists>v. cells (df w1) (r, c) = Some v \<and> 0 \<le> v)
           \<and> (\<exists>v. cells (df w2) (r, c) = Some v \<and> 0 \<le> v)"
    if "r \<in> set row_headers" "c \<in> set col_headers" for r c
  proof -
    from that have "(r, c) \<in> dom (cells (df w1))" "(r, c) \<in> dom (cells (df w2))"
      by (simp_all add: d)
    then obtain v1 v2 where "cells (df w1) (r, c) = Some v1" "cells (df w2) (r, c) = Some v2"
      by blast
    then show ?thesis using n1 n2 by blast
  qed
  show ?thesis
    using w1 w2 f n1 n2 by blast
qed

theorem recorded_durations_nonneg_witness:
  "(\<forall>t. steady_clock t \<le> steady_clock (t + 1))
   \<and> (\<exists>w1 w2. run_I steady_clock = Inr w1 \<and> run_II steady_clock = Inr w2
        \<and> (\<exists>v. cells (df w1) (''ternary'', ''2019'') = Some v \<and> 0 \<le> v)
        \<and> (\<exists>v. cells (df w2) (''calendar-isleap'', ''1900'') = Some v \<and> 0 \<le> v))"
proof -
  have m: "\<forall>t. steady_clock t \<le> steady_clock (t + 1)"
  proof
    fix t :: nat
    have "(t + 1) div 2 \<le> (t + 1 + 1) div 2" by (rule div_le_mono) simp
    then have "(of_nat ((t + 1) div 2) :: rat) \<le> of_nat ((t + 1 + 1) div 2)"
      by (rule of_nat_mono)
    then show "steady_clock t \<le> steady_clock (t + 1)"
      unfolding steady_clock_eq by (rule mult_right_mono) simp
  qed
  from recorded_durations_nonneg [OF m] obtain w1 w2 where
    w: "run_I steady_clock = Inr w1" "run_II steady_clock = Inr w2"
    and c: "\<forall>r \<in> set row_headers. \<forall>c \<in> set col_headers.
           (\<exists>v. cells (df w1) (r, c) = Some v \<and> 0 \<le> v)
           \<and> (\<exists>v. cells (df w2) (r, c) = Some v \<and> 0 \<le> v)"
    by blast
  have "(\<exists>v. cells (df w1) (''ternary'', ''2019'') = Some v \<and> 0 \<le> v)"
    "(\<exists>v. cells (df w2) (''calendar-isleap'', ''1900'') = Some v \<and> 0 \<le> v)"
    using c by (simp_all add: row_headers_def col_headers_def)
  with w m show ?thesis by blast
qed

section \<open>The shape of the table does not depend on the timer\<close>

lemma shape_loc_set:
  "shape (loc_set r c v d) =
     ((if r \<in> set (index d) then index d else index d @ [r]),
      (if c \<in> set (columns d) then columns d else columns d @ [c]),
      insert (r, c) (dom (cells d)))"
  by (simp add: shape_def loc_set_def)

lemma shape_loc_set_cong:
  "shape d1 = shape d2 \<Longrightarrow> shape (loc_set r c v1 d1) = shape (loc_set r c v2 d2)"
  by (simp add: shape_loc_set) (simp add: shape_def)

lemma dom_fold_row:
  "dom (fold (\<lambda>(c, v) m. m((r, c) \<mapsto> v)) ps m0) = dom m0 \<union> {r} \<times> fst ` set ps"
proof (induction ps arbitrary: m0)
  case Nil
  then show ?case by simp
next
  case (Cons p ps)
  obtain c v where p: "p = (c, v)" by (cases p)
  have "fold (\<lambda>(c, v) m. m((r, c) \<mapsto> v)) (p # ps) m0 =
        fold (\<lambda>(c, v) m. m((r, c) \<mapsto> v)) ps (m0((r, c) \<mapsto> v))"
    by (simp add: p)
  then have "dom (fold (\<lambda>(c, v) m. m((r, c) \<mapsto> v)) (p # ps) m0) =
        dom (m0((r, c) \<mapsto> v)) \<union> {r} \<times> fst ` set ps"
    by (simp only: Cons.IH)
  also have "\<dots> = insert (r, c) (dom m0) \<union> {r} \<times> fst ` set ps"
    by (simp only: dom_fun_upd option.simps if_False)
  also have "\<dots> = dom m0 \<union> {r} \<times> fst ` set (p # ps)"
    by (auto simp add: p)
  finally show ?case .
qed

lemma loc_set_slice_Inr:
  assumes "loc_set_slice r a b vals d = Inr d'"
  obtains cs vs where "slice_labels (columns d) a b = Inr cs" "length vs = length cs"
    "d' = d\<lparr>index := (if r \<in> set (index d) then index d else index d @ [r]),
             cells := fold (\<lambda>(c, v) m. m((r, c) \<mapsto> v)) (zip cs vs) (cells d)\<rparr>"
proof -
  from assms obtain cs where cs: "slice_labels (columns d) a b = Inr cs"
    by (auto simp add: loc_set_slice_def split: sum.splits)
  let ?vs = "if length vals = length cs then vals else replicate (length cs) (hd vals)"
  have "length ?vs = length cs" by simp
  moreover have "d' = d\<lparr>index := (if r \<in> set (index d) then index d else index d @ [r]),
             cells := fold (\<lambda>(c, v) m. m((r, c) \<mapsto> v)) (zip cs ?vs) (cells d)\<rparr>"
    using assms cs by (simp add: loc_set_slice_def split: if_splits)
  ultimately show thesis using cs that by blast
qed

lemma shape_loc_set_slice:
  assumes "loc_set_slice r a b vals d = Inr d'"
  shows "\<exists>cs. slice_labels (columns d) a b = Inr cs
           \<and> shape d' = ((if r \<in> set (index d) then index d else index d @ [r]),
                         columns d, dom (cells d) \<union> {r} \<times> set cs)"
proof -
  from assms obtain cs vs where cs: "slice_labels (columns d) a b = Inr cs"
    and l: "length vs = length cs"
    and d': "d' = d\<lparr>index := (if r \<in> set (index d) then index d else index d @ [r]),
             cells := fold (\<lambda>(c, v) m. m((r, c) \<mapsto> v)) (zip cs vs) (cells d)\<rparr>"
    by (rule loc_set_slice_Inr)
  have f: "fst ` set (zip cs vs) = set cs"
    using l by (metis map_fst_zip set_map)
  have "shape d' = ((if r \<in> set (index d) then index d else index d @ [r]),
                         columns d, dom (cells d) \<union> {r} \<times> set cs)"
    unfolding d' by (simp add: shape_def dom_fold_row f)
  with cs show ?thesis by blast
qed

lemma shape_loc_set_slice_cong:
  assumes "loc_set_slice r a b v1 d1 = Inr d1'" "loc_set_slice r a b v2 d2 = Inr d2'"
    "shape d1 = shape d2"
  shows "shape d1' = shape d2'"
proof -
  from assms(3) have eq: "index d1 = index d2" "columns d1 = columns d2"
    "dom (cells d1) = dom (cells d2)"
    by (simp_all add: shape_def)
  from shape_loc_set_slice [OF assms(1)] obtain cs1 where
    1: "slice_labels (columns d1) a b = Inr cs1"
       "shape d1' = ((if r \<in> set (index d1) then index d1 else index d1 @ [r]),
                     columns d1, dom (cells d1) \<union> {r} \<times> set cs1)"
    by blast
  from shape_loc_set_slice [OF assms(2)] obtain cs2 where
    2: "slice_labels (columns d2) a b = Inr cs2"
       "shape d2' = ((if r \<in> set (index d2) then index d2 else index d2 @ [r]),
                     columns d2, dom (cells d2) \<union> {r} \<times> set cs2)"
    by blast
  from 1(1) 2(1) eq(2) have "cs1 = cs2" by simp
  then show ?thesis by (simp add: 1(2) 2(2) eq)
qed

lemma shape_harness_II:
  assumes "harness_II clock1 cands1 inputs w1 = Inr w1'"
    "harness_II clock2 cands2 inputs w2 = Inr w2'"
    "map snd cands1 = map snd cands2" "shape (df w1) = shape (df w2)"
  shows "shape (df w1') = shape (df w2')"
  using assms
proof (induction cands1 arbitrary: cands2 w1 w2)
  case Nil
  then show ?case by simp
next
  case (Cons p ps)
  obtain f1 title where p: "p = (f1, title)" by (cases p)
  from Cons.prems(3) p obtain f2 qs where c2: "cands2 = (f2, title) # qs"
    "map snd ps = map snd qs"
    by (cases cands2) auto
  from Cons.prems(1) p obtain val1 t1 d1 where s1:
    "measure_row clock1 f1 inputs (ticks w1) = Inr (val1, t1)"
    "loc_set_slice title ''1900'' ''2020'' val1 (df w1) = Inr d1"
    "harness_II clock1 ps inputs
       ((print (RowLine title val1) (w1\<lparr>ticks := t1\<rparr>))\<lparr>df := d1\<rparr>) = Inr w1'"
    by (auto simp add: Let_def print_def split: sum.splits prod.splits)
  from Cons.prems(2) c2 obtain val2 t2 d2 where s2:
    "measure_row clock2 f2 inputs (ticks w2) = Inr (val2, t2)"
    "loc_set_slice title ''1900'' ''2020'' val2 (df w2) = Inr d2"
    "harness_II clock2 qs inputs
       ((print (RowLine title val2) (w2\<lparr>ticks := t2\<rparr>))\<lparr>df := d2\<rparr>) = Inr w2'"
    by (auto simp add: Let_def print_def split: sum.splits prod.splits)
  have "shape d1 = shape d2"
    by (rule shape_loc_set_slice_cong [OF s1(2) s2(2) Cons.prems(4)])
  then show ?case
    using Cons.IH [OF s1(3) s2(3) c2(2)] by simp
qed

lemma shape_measure_cell:
  assumes "measure_cell clock1 sts1 d y yr w1 = Inr w1'"
    "measure_cell clock2 sts2 d y yr w2 = Inr w2'" "shape (df w1) = shape (df w2)"
  shows "shape (df w1') = shape (df w2')"
  using assms
  by (auto simp add: measure_cell_def Let_def print_def
      split: option.splits sum.splits prod.splits intro: shape_loc_set_cong)

lemma shape_loop_body_I:
  assumes "loop_body_I clock1 sts1 d w1 = Inr w1'"
    "loop_body_I clock2 sts2 d w2 = Inr w2'" "shape (df w1) = shape (df w2)"
  shows "shape (df w1') = shape (df w2')"
proof -
  from assms(1) obtain a1 b1 c1 where s1:
    "measure_cell clock1 sts1 d 1900 ''1900'' w1 = Inr a1"
    "measure_cell clock1 sts1 d 2000 ''2000'' a1 = Inr b1"
    "measure_cell clock1 sts1 d 2019 ''2019'' b1 = Inr c1"
    "measure_cell clock1 sts1 d 2020 ''2020'' c1 = Inr w1'"
    by (auto simp add: loop_body_I_def split: sum.splits)
  from assms(2) obtain a2 b2 c2 where s2:
    "measure_cell clock2 sts2 d 1900 ''1900'' w2 = Inr a2"
    "measure_cell clock2 sts2 d 2000 ''2000'' a2 = Inr b2"
    "measure_cell clock2 sts2 d 2019 ''2019'' b2 = Inr c2"
    "measure_cell clock2 sts2 d 2020 ''2020'' c2 = Inr w2'"
    by (auto simp add: loop_body_I_def split: sum.splits)
  note shape_measure_cell [OF s1(1) s2(1) assms(3)]
  note shape_measure_cell [OF s1(2) s2(2) this]
  note shape_measure_cell [OF s1(3) s2(3) this]
  then show ?thesis by (rule shape_measure_cell [OF s1(4) s2(4)])
qed

lemma shape_harness_I:
  assumes "harness_I clock1 sts1 ds w1 = Inr w1'"
    "harness_I clock2 sts2 ds w2 = Inr w2'" "shape (df w1) = shape (df w2)"
  shows "shape (df w1') = shape (df w2')"
  using assms
proof (induction ds arbitrary: w1 w2)
  case Nil
  then show ?case by simp
next
  case (Cons d ds)
  from Cons.prems(1) obtain a1 where s1: "loop_body_I clock1 sts1 d w1 = Inr a1"
    "harness_I clock1 sts1 ds a1 = Inr w1'"
    by (auto split: sum.splits)
  from Cons.prems(2) obtain a2 where s2: "loop_body_I clock2 sts2 d w2 = Inr a2"
    "harness_I clock2 sts2 ds a2 = Inr w2'"
    by (auto split: sum.splits)
  show ?case
    by (rule Cons.IH [OF s1(2) s2(2) shape_loop_body_I [OF s1(1) s2(1) Cons.prems(3)]])
qed

section \<open>What a cell holds\<close>




section \<open>The table after a run\<close>

text \<open>
  C4. After a run that completes without a candidate raising, every cell of the result
  table is populated: the rows are the four candidates, the columns the four years, and
  the filled cells are exactly the sixteen pairs. It holds for any candidates put in the
  setups of Leap\_benchmarking.py and for any four candidates put in the list of
  Leap\_Benchmark\_II.py.
\<close>

theorem every_cell_populated:
  assumes "harness_I clock sts row_headers initial_world = Inr w
           \<or> (length fs = length row_headers
               \<and> harness_II clock (zip fs row_headers) input_data initial_world = Inr w)"
  shows "index (df w) = row_headers \<and> columns (df w) = col_headers
         \<and> dom (cells (df w)) = set row_headers \<times> set col_headers
         \<and> (\<forall>r \<in> set row_headers. \<forall>c \<in> set col_headers. \<exists>v. cells (df w) (r, c) = Some v)"
proof -
  have "shape (df w) = (row_headers, col_headers, set row_headers \<times> set col_headers)"
    using assms
  proof
    assume a: "harness_I clock sts row_headers initial_world = Inr w"
    obtain w0 where w0: "run_I clock = Inr w0" using run_I_succeeds by blast
    have "shape (df w) = shape (df w0)"
      by (rule shape_harness_I [OF a w0 [unfolded run_I_def]]) simp
    then show ?thesis by (simp add: run_I_shape [OF w0])
  next
    assume a: "length fs = length row_headers
               \<and> harness_II clock (zip fs row_headers) input_data initial_world = Inr w"
    obtain w0 where w0: "run_II clock = Inr w0" using run_II_succeeds by blast
    have l: "length functions_II = length row_headers"
      by (simp add: functions_II_def row_headers_def)
    have "shape (df w) = shape (df w0)"
      by (rule shape_harness_II [OF conjunct2 [OF a] w0 [unfolded run_II_def]])
         (simp_all add: a l)
    then show ?thesis by (simp add: run_II_shape [OF w0])
  qed
  then have s: "index (df w) = row_headers" "columns (df w) = col_headers"
    "dom (cells (df w)) = set row_headers \<times> set col_headers"
    by (simp_all add: shape_def)
  have "\<forall>r \<in> set row_headers. \<forall>c \<in> set col_headers. \<exists>v. cells (df w) (r, c) = Some v"
  proof (intro ballI)
    fix r c assume "r \<in> set row_headers" "c \<in> set col_headers"
    then have "(r, c) \<in> dom (cells (df w))" by (simp add: s(3))
    then show "\<exists>v. cells (df w) (r, c) = Some v" by blast
  qed
  with s show ?thesis by simp
qed

theorem every_cell_populated_witness:
  "(\<exists>w. run_I steady_clock = Inr w \<and> index (df w) = row_headers
       \<and> columns (df w) = col_headers
       \<and> (\<exists>v. cells (df w) (''ternary'', ''2000'') = Some v))
   \<and> (\<exists>w. run_II steady_clock = Inr w \<and> index (df w) = row_headers
       \<and> columns (df w) = col_headers
       \<and> (\<exists>v. cells (df w) (''datetime-add'', ''2019'') = Some v))"
proof -
  obtain a where a: "run_I steady_clock = Inr a" using run_I_succeeds by blast
  have "harness_I steady_clock setups row_headers initial_world = Inr a"
    using a by (simp add: run_I_def)
  then have "index (df a) = row_headers \<and> columns (df a) = col_headers
         \<and> dom (cells (df a)) = set row_headers \<times> set col_headers
         \<and> (\<forall>r \<in> set row_headers. \<forall>c \<in> set col_headers. \<exists>v. cells (df a) (r, c) = Some v)"
    by (rule every_cell_populated [of steady_clock setups a functions_II, OF disjI1])
  then have 1: "\<exists>w. run_I steady_clock = Inr w \<and> index (df w) = row_headers
       \<and> columns (df w) = col_headers
       \<and> (\<exists>v. cells (df w) (''ternary'', ''2000'') = Some v)"
    using a by (simp add: row_headers_def col_headers_def)
  obtain w where w: "run_II steady_clock = Inr w" using run_II_succeeds by blast
  have "length functions_II = length row_headers
        \<and> harness_II steady_clock (zip functions_II row_headers) input_data initial_world = Inr w"
    using w by (simp add: run_II_def functions_II_def row_headers_def)
  then have "index (df w) = row_headers \<and> columns (df w) = col_headers
         \<and> dom (cells (df w)) = set row_headers \<times> set col_headers
         \<and> (\<forall>r \<in> set row_headers. \<forall>c \<in> set col_headers. \<exists>v. cells (df w) (r, c) = Some v)"
    by (rule every_cell_populated [of steady_clock "setups" w functions_II, OF disjI2])
  then have 2: "\<exists>w. run_II steady_clock = Inr w \<and> index (df w) = row_headers
       \<and> columns (df w) = col_headers
       \<and> (\<exists>v. cells (df w) (''datetime-add'', ''2019'') = Some v)"
    using w by (simp add: row_headers_def col_headers_def)
  show ?thesis by (rule conjI [OF 1 2])
qed

text \<open>
  C7. Two runs with the same candidates, inputs and repetitions, under any two timers, give
  tables with the same row labels and column labels in the same order and the same filled
  cells; the two scripts as they are always complete, with the rows \<open>row_headers\<close> and the
  columns \<open>col_headers\<close>.
\<close>

theorem same_shape_and_order:
  "(harness_I clock1 sts ds w = Inr w1 \<and> harness_I clock2 sts ds w = Inr w2
      \<longrightarrow> index (df w1) = index (df w2) \<and> columns (df w1) = columns (df w2)
          \<and> dom (cells (df w1)) = dom (cells (df w2)))
   \<and> (harness_II clock1 cands inputs w = Inr w1 \<and> harness_II clock2 cands inputs w = Inr w2
      \<longrightarrow> index (df w1) = index (df w2) \<and> columns (df w1) = columns (df w2)
          \<and> dom (cells (df w1)) = dom (cells (df w2)))
   \<and> (\<exists>a b. run_I clock1 = Inr a \<and> run_I clock2 = Inr b
          \<and> index (df a) = row_headers \<and> index (df b) = row_headers
          \<and> columns (df a) = col_headers \<and> columns (df b) = col_headers
          \<and> dom (cells (df a)) = dom (cells (df b)))
   \<and> (\<exists>a b. run_II clock1 = Inr a \<and> run_II clock2 = Inr b
          \<and> index (df a) = row_headers \<and> index (df b) = row_headers
          \<and> columns (df a) = col_headers \<and> columns (df b) = col_headers
          \<and> dom (cells (df a)) = dom (cells (df b)))"
proof -
  have 1: "harness_I clock1 sts ds w = Inr w1 \<and> harness_I clock2 sts ds w = Inr w2
      \<longrightarrow> index (df w1) = index (df w2) \<and> columns (df w1) = columns (df w2)
          \<and> dom (cells (df w1)) = dom (cells (df w2))"
  proof
    assume a: "harness_I clock1 sts ds w = Inr w1 \<and> harness_I clock2 sts ds w = Inr w2"
    have "shape (df w1) = shape (df w2)"
      by (rule shape_harness_I [OF conjunct1 [OF a] conjunct2 [OF a]]) simp
    then show "index (df w1) = index (df w2) \<and> columns (df w1) = columns (df w2)
          \<and> dom (cells (df w1)) = dom (cells (df w2))"
      by (simp add: shape_def)
  qed
  have 2: "harness_II clock1 cands inputs w = Inr w1 \<and> harness_II clock2 cands inputs w = Inr w2
      \<longrightarrow> index (df w1) = index (df w2) \<and> columns (df w1) = columns (df w2)
          \<and> dom (cells (df w1)) = dom (cells (df w2))"
  proof
    assume a: "harness_II clock1 cands inputs w = Inr w1 \<and> harness_II clock2 cands inputs w = Inr w2"
    have "shape (df w1) = shape (df w2)"
      by (rule shape_harness_II [OF conjunct1 [OF a] conjunct2 [OF a]]) simp_all
    then show "index (df w1) = index (df w2) \<and> columns (df w1) = columns (df w2)
          \<and> dom (cells (df w1)) = dom (cells (df w2))"
      by (simp add: shape_def)
  qed
  obtain a b where ab: "run_I clock1 = Inr a" "run_I clock2 = Inr b"
    using run_I_succeeds by blast
  have 3: "\<exists>a b. run_I clock1 = Inr a \<and> run_I clock2 = Inr b
          \<and> index (df a) = row_headers \<and> index (df b) = row_headers
          \<and> columns (df a) = col_headers \<and> columns (df b) = col_headers
          \<and> dom (cells (df a)) = dom (cells (df b))"
    using ab run_I_shape [OF ab(1)] run_I_shape [OF ab(2)] by (simp add: shape_def)
  obtain c d where cd: "run_II clock1 = Inr c" "run_II clock2 = Inr d"
    using run_II_succeeds by blast
  have 4: "\<exists>a b. run_II clock1 = Inr a \<and> run_II clock2 = Inr b
          \<and> index (df a) = row_headers \<and> index (df b) = row_headers
          \<and> columns (df a) = col_headers \<and> columns (df b) = col_headers
          \<and> dom (cells (df a)) = dom (cells (df b))"
    using cd run_II_shape [OF cd(1)] run_II_shape [OF cd(2)] by (simp add: shape_def)
  show ?thesis by (rule conjI [OF 1 conjI [OF 2 conjI [OF 3 4]]])
qed

theorem same_shape_and_order_witness:
  "(\<exists>a b. run_I steady_clock = Inr a \<and> run_I (\<lambda>t. of_nat t) = Inr b
       \<and> index (df a) = index (df b) \<and> columns (df a) = columns (df b)
       \<and> dom (cells (df a)) = dom (cells (df b)))
   \<and> (\<exists>a b. run_II steady_clock = Inr a \<and> run_II (\<lambda>t. of_nat t) = Inr b
       \<and> index (df a) = index (df b) \<and> columns (df a) = columns (df b)
       \<and> dom (cells (df a)) = dom (cells (df b)))"
proof -
  obtain c d where cd: "run_I steady_clock = Inr c" "run_I (\<lambda>t. of_nat t) = Inr d"
    using run_I_succeeds by blast
  have g: "harness_I steady_clock setups row_headers initial_world = Inr c
        \<and> harness_I (\<lambda>t. of_nat t) setups row_headers initial_world = Inr d"
    using cd by (simp add: run_I_def)
  from same_shape_and_order [of steady_clock setups row_headers initial_world c
      "\<lambda>t. of_nat t" d "zip functions_II row_headers" input_data]
  have "index (df c) = index (df d) \<and> columns (df c) = columns (df d)
          \<and> dom (cells (df c)) = dom (cells (df d))"
    using g by blast
  with cd have 1: "\<exists>a b. run_I steady_clock = Inr a \<and> run_I (\<lambda>t. of_nat t) = Inr b
       \<and> index (df a) = index (df b) \<and> columns (df a) = columns (df b)
       \<and> dom (cells (df a)) = dom (cells (df b))"
    by blast
  obtain a b where ab: "run_II steady_clock = Inr a" "run_II (\<lambda>t. of_nat t) = Inr b"
    using run_II_succeeds by blast
  have h: "harness_II steady_clock (zip functions_II row_headers) input_data initial_world = Inr a
        \<and> harness_II (\<lambda>t. of_nat t) (zip functions_II row_headers) input_data initial_world
            = Inr b"
    using ab by (simp add: run_II_def)
  from same_shape_and_order [of steady_clock setups row_headers initial_world a
      "\<lambda>t. of_nat t" b "zip functions_II row_headers" input_data]
  have "index (df a) = index (df b) \<and> columns (df a) = columns (df b)
          \<and> dom (cells (df a)) = dom (cells (df b))"
    using h by blast
  with ab have 2: "\<exists>a b. run_II steady_clock = Inr a \<and> run_II (\<lambda>t. of_nat t) = Inr b
       \<and> index (df a) = index (df b) \<and> columns (df a) = columns (df b)
       \<and> dom (cells (df a)) = dom (cells (df b))"
    by blast
  show ?thesis by (rule conjI [OF 1 2])
qed

section \<open>The effects of the measurement phase\<close>

text \<open>
  C8, as stated: the measurement phase prints one console line for each measurement. In
  Leap\_Benchmark\_II.py it prints four lines for sixteen measurements.
\<close>

theorem log_lines_counterexample:
  "lines_printed (run_II steady_clock) = Some 4
   \<and> measurements_recorded (run_II steady_clock) = Some 16"
  unfolding run_II_result
  by (simp add: lines_printed_def measurements_recorded_def row_headers_def col_headers_def)

text \<open>
  C8, amended: the only effects of the measurement phase besides filling the table are
  console lines: in Leap\_benchmarking.py one line for each measurement, printed in the
  step that takes it, with the value stored in the cell; in Leap\_Benchmark\_II.py one line
  for each candidate, with the four values stored in its row. No file is written in the
  measurement phase; the figure is saved after it, and then the header line and the table
  are printed.
\<close>

theorem measurement_effects:
  "(\<exists>w1 w2. run_I clock = Inr w1 \<and> run_II clock = Inr w2
     \<and> dom (cells (df w1)) = set (List.product row_headers col_headers)
     \<and> dom (cells (df w2)) = set (List.product row_headers col_headers)
     \<and> effects w1 = map (\<lambda>(r, c). Print (CellLine r c (the (cells (df w1) (r, c)))))
                       (List.product row_headers col_headers)
     \<and> effects w2 = map (\<lambda>r. Print (RowLine r (map (\<lambda>c. the (cells (df w2) (r, c)))
                                                col_headers)))
                       row_headers
     \<and> script_I clock = Inr (present w1) \<and> script_II clock = Inr (present w2)
     \<and> effects (present w1) = effects w1 @
          [SaveFig ''../leap_timeit_bar_plot-dark.svg'',
           Print (Text ''\<newline>Dataframe in Markdown format:\<newline>''),
           Print (Markdown (df w1))]
     \<and> effects (present w2) = effects w2 @
          [SaveFig ''../leap_timeit_bar_plot-dark.svg'',
           Print (Text ''\<newline>Dataframe in Markdown format:\<newline>''),
           Print (Markdown (df w2))])
   \<and> (measure_cell clock sts d y yr w = Inr w'
      \<longrightarrow> (\<exists>v. effects w' = effects w @ [Print (CellLine d yr v)]
              \<and> cells (df w') (d, yr) = Some v \<and> ticks w' = ticks w + 2))"
proof -
  obtain w1 where w1: "run_I clock = Inr w1" using run_I_succeeds by blast
  obtain w2 where w2: "run_II clock = Inr w2" using run_II_succeeds by blast
  have d: "dom (cells (df w1)) = set (List.product row_headers col_headers)"
    "dom (cells (df w2)) = set (List.product row_headers col_headers)"
    using run_I_shape [OF w1] run_II_shape [OF w2] by (simp_all add: shape_def)
  have e1: "effects w1 = map (\<lambda>(r, c). Print (CellLine r c (the (cells (df w1) (r, c)))))
                       (List.product row_headers col_headers)"
    unfolding run_I_fields [OF w1]
    by (simp add: row_headers_def col_headers_def)
  have e2: "effects w2 = map (\<lambda>r. Print (RowLine r (map (\<lambda>c. the (cells (df w2) (r, c)))
                                                col_headers)))
                       row_headers"
    unfolding run_II_fields [OF w2]
    by (simp add: row_headers_def col_headers_def upt_rec [of _ 4] del: upt_Suc)
  have s: "script_I clock = Inr (present w1)" "script_II clock = Inr (present w2)"
    by (simp_all add: script_I_def script_II_def w1 w2)
  have p: "effects (present w) = effects w @
          [SaveFig ''../leap_timeit_bar_plot-dark.svg'',
           Print (Text ''\<newline>Dataframe in Markdown format:\<newline>''),
           Print (Markdown (df w))]" for w
    by (simp add: present_def print_def)
  have 1: "\<exists>w1 w2. run_I clock = Inr w1 \<and> run_II clock = Inr w2
     \<and> dom (cells (df w1)) = set (List.product row_headers col_headers)
     \<and> dom (cells (df w2)) = set (List.product row_headers col_headers)
     \<and> effects w1 = map (\<lambda>(r, c). Print (CellLine r c (the (cells (df w1) (r, c)))))
                       (List.product row_headers col_headers)
     \<and> effects w2 = map (\<lambda>r. Print (RowLine r (map (\<lambda>c. the (cells (df w2) (r, c)))
                                                col_headers)))
                       row_headers
     \<and> script_I clock = Inr (present w1) \<and> script_II clock = Inr (present w2)
     \<and> effects (present w1) = effects w1 @
          [SaveFig ''../leap_timeit_bar_plot-dark.svg'',
           Print (Text ''\<newline>Dataframe in Markdown format:\<newline>''),
           Print (Markdown (df w1))]
     \<and> effects (present w2) = effects w2 @
          [SaveFig ''../leap_timeit_bar_plot-dark.svg'',
           Print (Text ''\<newline>Dataframe in Markdown format:\<newline>''),
           Print (Markdown (df w2))]"
    using w1 w2 d e1 e2 s p by blast
  have 2: "measure_cell clock sts d y yr w = Inr w'
      \<longrightarrow> (\<exists>v. effects w' = effects w @ [Print (CellLine d yr v)]
              \<and> cells (df w') (d, yr) = Some v \<and> ticks w' = ticks w + 2)"
    using measure_cell_step [of clock sts d y yr w w'] by blast
  show ?thesis by (rule conjI [OF 1 2])
qed

theorem measurement_effects_witness:
  "(\<exists>w1 w2. run_I steady_clock = Inr w1 \<and> run_II steady_clock = Inr w2
     \<and> length (effects w1) = 16 \<and> length (effects w2) = 4
     \<and> hd (effects w2) = Print (RowLine ''if-statements'' [1, 1, 1, 1]))
   \<and> (\<exists>w' v. measure_cell steady_clock setups ''ternary'' 2019 ''2019'' initial_world = Inr w'
         \<and> effects w' = [Print (CellLine ''ternary'' ''2019'' v)])"
proof -
  from measurement_effects [of steady_clock] obtain w1 w2 where
    w: "run_I steady_clock = Inr w1" "run_II steady_clock = Inr w2"
    and e1: "effects w1 = map (\<lambda>(r, c). Print (CellLine r c (the (cells (df w1) (r, c)))))
                       (List.product row_headers col_headers)"
    and e2: "effects w2 = map (\<lambda>r. Print (RowLine r (map (\<lambda>c. the (cells (df w2) (r, c)))
                                                col_headers)))
                       row_headers"
    by blast
  have c: "cells (df w2) (''if-statements'', ''1900'') = Some 1"
    "cells (df w2) (''if-statements'', ''2000'') = Some 1"
    "cells (df w2) (''if-statements'', ''2019'') = Some 1"
    "cells (df w2) (''if-statements'', ''2020'') = Some 1"
    using run_II_cells [OF w(2), of 0 0] run_II_cells [OF w(2), of 0 1]
      run_II_cells [OF w(2), of 0 2] run_II_cells [OF w(2), of 0 3]
    by (simp_all add: row_headers_def col_headers_def measured_II_steady_clock)
  have "length (effects w1) = 16" "length (effects w2) = 4"
    by (simp_all add: e1 e2 row_headers_def col_headers_def)
  moreover have "hd (effects w2) = Print (RowLine ''if-statements'' [1, 1, 1, 1])"
    unfolding e2 by (simp add: row_headers_def col_headers_def c)
  ultimately have 1: "\<exists>w1 w2. run_I steady_clock = Inr w1 \<and> run_II steady_clock = Inr w2
     \<and> length (effects w1) = 16 \<and> length (effects w2) = 4
     \<and> hd (effects w2) = Print (RowLine ''if-statements'' [1, 1, 1, 1])"
    using w by blast
  have "\<exists>w'. measure_cell steady_clock setups ''ternary'' 2019 ''2019'' initial_world = Inr w'"
    by (simp add: measure_cell_def setups_def returns_def Let_def)
  then obtain w' where
    m: "measure_cell steady_clock setups ''ternary'' 2019 ''2019'' initial_world = Inr w'"
    by blast
  from measurement_effects [of steady_clock setups "''ternary''" 2019 "''2019''"
      initial_world w'] m
  have "\<exists>v. effects w' = effects initial_world @ [Print (CellLine ''ternary'' ''2019'' v)]"
    by blast
  then have 2: "\<exists>w' v. measure_cell steady_clock setups ''ternary'' 2019 ''2019'' initial_world
                    = Inr w' \<and> effects w' = [Print (CellLine ''ternary'' ''2019'' v)]"
    using m by (auto simp add: initial_world_def)
  show ?thesis by (rule conjI [OF 1 2])
qed

section \<open>A candidate that raises\<close>

lemma harness_II_append:
  "harness_II clock (xs @ ys) inputs w =
     (case harness_II clock xs inputs w of
        Inl e \<Rightarrow> Inl e
      | Inr w' \<Rightarrow> harness_II clock ys inputs w')"
  by (induction xs arbitrary: w)
     (auto simp add: Let_def split: sum.splits prod.splits)

lemma harness_II_raises_first:
  assumes "x \<in> set inputs" "func x = Inl e"
  shows "\<exists>x' e'. x' \<in> set inputs \<and> func x' = Inl e'
           \<and> harness_II clock ((func, title) # post) inputs w = Inl e'"
proof -
  from measure_row_raises [of x inputs func e clock "ticks w"] assms
  obtain x' e' where "x' \<in> set inputs" "func x' = Inl e'"
    "measure_row clock func inputs (ticks w) = Inl e'"
    by blast
  then show ?thesis by auto
qed

lemma harness_II_raises:
  assumes "(func, title) \<in> set cands" "x \<in> set inputs" "func x = Inl e"
  shows "\<exists>e'. harness_II clock cands inputs w = Inl e'"
  using assms(1)
proof (induction cands arbitrary: w)
  case Nil
  then show ?case by simp
next
  case (Cons p ps)
  show ?case
  proof (cases "p = (func, title)")
    case True
    then show ?thesis
      using harness_II_raises_first [of x inputs func e clock title ps w] assms(2,3) by blast
  next
    case False
    with Cons.prems have "(func, title) \<in> set ps" by simp
    from Cons.IH [OF this] show ?thesis
      by (cases p) (auto simp add: Let_def split: sum.splits prod.splits)
  qed
qed

lemma measure_cell_Inl:
  "sts d = Some f \<Longrightarrow> f y = Inl e \<Longrightarrow> measure_cell clock sts d y yr w = Inl e"
  by (simp add: measure_cell_def Timer_timeit_Inl loops_def)

lemma measure_cell_Inr:
  "sts d = Some f \<Longrightarrow> f y = Inr b \<Longrightarrow> \<exists>w'. measure_cell clock sts d y yr w = Inr w'"
  by (simp add: measure_cell_def Let_def)

lemma loop_body_I_raises:
  assumes "sts d = Some f" "y \<in> {1900, 2000, 2019, 2020}" "f y = Inl e"
  shows "\<exists>y' e'. y' \<in> {1900, 2000, 2019, 2020} \<and> f y' = Inl e'
           \<and> loop_body_I clock sts d w = Inl e'"
proof -
  have ok: "\<exists>w''. measure_cell clock sts d y' yr w' = Inr w''" if "f y' = Inr b"
    for y' yr w' b
    using measure_cell_Inr [of sts d f y' b clock yr w'] assms(1) that by simp
  show ?thesis
  proof (cases "f 1900")
    case (Inl e')
    then have "loop_body_I clock sts d w = Inl e'"
      using assms(1) by (simp add: loop_body_I_def measure_cell_Inl)
    with Inl show ?thesis by blast
  next
    case a: (Inr b1)
    from ok [OF a] obtain w1 where
      w1: "measure_cell clock sts d 1900 ''1900'' w = Inr w1" by blast
    show ?thesis
    proof (cases "f 2000")
      case (Inl e')
      then have "loop_body_I clock sts d w = Inl e'"
        using assms(1) w1 by (simp add: loop_body_I_def measure_cell_Inl)
      with Inl show ?thesis by blast
    next
      case b: (Inr b2)
      from ok [OF b] obtain w2 where
        w2: "measure_cell clock sts d 2000 ''2000'' w1 = Inr w2" by blast
      show ?thesis
      proof (cases "f 2019")
        case (Inl e')
        then have "loop_body_I clock sts d w = Inl e'"
          using assms(1) w1 w2 by (simp add: loop_body_I_def measure_cell_Inl)
        with Inl show ?thesis by blast
      next
        case c: (Inr b3)
        from ok [OF c] obtain w3 where
          w3: "measure_cell clock sts d 2019 ''2019'' w2 = Inr w3" by blast
        from assms(2) have "y = 1900 \<or> y = 2000 \<or> y = 2019 \<or> y = 2020" by simp
        with assms(3) a b c have l: "f 2020 = Inl e" by auto
        then have "loop_body_I clock sts d w = Inl e"
          using assms(1) w1 w2 w3 by (simp add: loop_body_I_def measure_cell_Inl)
        with l show ?thesis by blast
      qed
    qed
  qed
qed

lemma harness_I_append:
  "harness_I clock sts (xs @ ys) w =
     (case harness_I clock sts xs w of
        Inl e \<Rightarrow> Inl e
      | Inr w' \<Rightarrow> harness_I clock sts ys w')"
  by (induction xs arbitrary: w) (auto split: sum.splits)

lemma harness_I_raises:
  assumes "d \<in> set ds" "sts d = Some f" "y \<in> {1900, 2000, 2019, 2020}" "f y = Inl e"
  shows "\<exists>e'. harness_I clock sts ds w = Inl e'"
  using assms(1)
proof (induction ds arbitrary: w)
  case Nil
  then show ?case by simp
next
  case (Cons a ds)
  show ?case
  proof (cases "a = d")
    case True
    then show ?thesis
      using loop_body_I_raises [of sts d f y e clock w] assms(2,3,4) by auto
  next
    case False
    with Cons.prems have "d \<in> set ds" by simp
    from Cons.IH [OF this] show ?thesis
      by (auto split: sum.splits)
  qed
qed

lemma measure_row_first_failure:
  assumes "\<forall>y \<in> set ys. \<exists>b. func y = Inr b" "func x = Inl e"
  shows "measure_row clock func (ys @ x # zs) t = Inl e"
  using assms(1)
proof (induction ys arbitrary: t)
  case Nil
  then show ?case by (simp add: assms(2) Timer_repeat_default_Inl)
next
  case (Cons a ys)
  from Cons.prems obtain b where b: "func a = Inr b" by auto
  have "measure_row clock func (ys @ x # zs) (t + 10) = Inl e"
    using Cons.IH [of "t + 10"] Cons.prems by simp
  then show ?case
    by (simp add: b Timer_repeat_default py_min_default)
qed

lemma harness_II_first_failure:
  assumes "harness_II clock pre (ys @ x # zs) w = Inr w'"
    "\<forall>y \<in> set ys. \<exists>b. func y = Inr b" "func x = Inl e"
  shows "harness_II clock (pre @ (func, title) # post) (ys @ x # zs) w = Inl e"
  by (simp add: harness_II_append assms(1)
      measure_row_first_failure [of ys func x e clock zs "ticks w'", OF assms(2,3)])

lemma years_split:
  assumes "[1900, 2000, 2019, 2020 :: int] = ys @ x # zs"
  shows "(ys = [] \<and> x = 1900) \<or> (ys = [1900] \<and> x = 2000)
         \<or> (ys = [1900, 2000] \<and> x = 2019) \<or> (ys = [1900, 2000, 2019] \<and> x = 2020)"
  using assms by (auto simp add: Cons_eq_append_conv)

lemma loop_body_I_first_failure:
  assumes "sts d = Some func" "[1900, 2000, 2019, 2020] = ys @ x # zs"
    "\<forall>y \<in> set ys. \<exists>b. func y = Inr b" "func x = Inl e"
  shows "loop_body_I clock sts d w = Inl e"
proof -
  have ok: "\<exists>w''. measure_cell clock sts d y' yr w' = Inr w''" if "\<exists>b. func y' = Inr b"
    for y' yr w'
    using that measure_cell_Inr [of sts d func y' _ clock yr w'] assms(1) by blast
  have bad: "measure_cell clock sts d x yr w' = Inl e" for yr w'
    by (rule measure_cell_Inl [of sts d func x e clock yr w', OF assms(1,4)])
  from years_split [OF assms(2)] show ?thesis
  proof (elim disjE conjE)
    assume "ys = []" "x = 1900"
    then show ?thesis using bad [of "''1900''" w] by (simp add: loop_body_I_def)
  next
    assume a: "ys = [1900]" "x = 2000"
    with assms(3) ok [of 1900 "''1900''" w] obtain w1 where
      "measure_cell clock sts d 1900 ''1900'' w = Inr w1" by auto
    then show ?thesis using a bad [of "''2000''" w1] by (simp add: loop_body_I_def)
  next
    assume a: "ys = [1900, 2000]" "x = 2019"
    with assms(3) ok [of 1900 "''1900''" w] obtain w1 where
      w1: "measure_cell clock sts d 1900 ''1900'' w = Inr w1" by auto
    from a assms(3) ok [of 2000 "''2000''" w1] obtain w2 where
      w2: "measure_cell clock sts d 2000 ''2000'' w1 = Inr w2" by auto
    show ?thesis using a w1 w2 bad [of "''2019''" w2] by (simp add: loop_body_I_def)
  next
    assume a: "ys = [1900, 2000, 2019]" "x = 2020"
    with assms(3) ok [of 1900 "''1900''" w] obtain w1 where
      w1: "measure_cell clock sts d 1900 ''1900'' w = Inr w1" by auto
    from a assms(3) ok [of 2000 "''2000''" w1] obtain w2 where
      w2: "measure_cell clock sts d 2000 ''2000'' w1 = Inr w2" by auto
    from a assms(3) ok [of 2019 "''2019''" w2] obtain w3 where
      w3: "measure_cell clock sts d 2019 ''2019'' w2 = Inr w3" by auto
    show ?thesis using a w1 w2 w3 bad [of "''2020''" w3] by (simp add: loop_body_I_def)
  qed
qed

lemma harness_I_first_failure:
  assumes "harness_I clock sts pre_ds w = Inr w'" "sts d = Some func"
    "[1900, 2000, 2019, 2020] = ys @ x # zs"
    "\<forall>y \<in> set ys. \<exists>b. func y = Inr b" "func x = Inl e"
  shows "harness_I clock sts (pre_ds @ d # post_ds) w = Inl e"
  by (simp add: harness_I_append assms(1)
      loop_body_I_first_failure [of sts d func ys x zs e clock w', OF assms(2,3,4,5)])

text \<open>
  C5. If a candidate raises for some input, the exception propagates immediately out of the
  harness and the run aborts: when the candidates before it have run and it has returned
  on the inputs before \<open>x\<close>, the run returns exactly the exception it raises on \<open>x\<close>, whatever
  inputs and candidates come after. No table is returned, and a run in which any candidate
  raises on any input returns an exception.
\<close>

theorem candidate_exception_aborts:
  "(harness_II clock pre (ys @ x # zs) w = Inr w' \<and> (\<forall>y \<in> set ys. \<exists>b. func y = Inr b)
        \<and> func x = Inl e
      \<longrightarrow> harness_II clock (pre @ (func, title) # post) (ys @ x # zs) w = Inl e)
   \<and> (harness_I clock sts pre_ds w = Inr w' \<and> sts d = Some func
        \<and> [1900, 2000, 2019, 2020] = ys @ x # zs \<and> (\<forall>y \<in> set ys. \<exists>b. func y = Inr b)
        \<and> func x = Inl e
      \<longrightarrow> harness_I clock sts (pre_ds @ d # post_ds) w = Inl e)
   \<and> ((func, title) \<in> set cands \<and> x \<in> set inputs \<and> func x = Inl e
      \<longrightarrow> (\<exists>e'. harness_II clock cands inputs w = Inl e'))
   \<and> (d \<in> set ds \<and> sts d = Some func \<and> x \<in> {1900, 2000, 2019, 2020} \<and> func x = Inl e
      \<longrightarrow> (\<exists>e'. harness_I clock sts ds w = Inl e'))"
proof (intro conjI impI)
  assume a: "harness_II clock pre (ys @ x # zs) w = Inr w'
      \<and> (\<forall>y \<in> set ys. \<exists>b. func y = Inr b) \<and> func x = Inl e"
  show "harness_II clock (pre @ (func, title) # post) (ys @ x # zs) w = Inl e"
    by (rule harness_II_first_failure [of clock pre ys x zs w w' func e title post])
       (use a in simp_all)
next
  assume a: "harness_I clock sts pre_ds w = Inr w' \<and> sts d = Some func
        \<and> [1900, 2000, 2019, 2020] = ys @ x # zs \<and> (\<forall>y \<in> set ys. \<exists>b. func y = Inr b)
        \<and> func x = Inl e"
  show "harness_I clock sts (pre_ds @ d # post_ds) w = Inl e"
    by (rule harness_I_first_failure [of clock sts pre_ds w w' d func ys x zs e post_ds])
       (use a in simp_all)
next
  assume a: "(func, title) \<in> set cands \<and> x \<in> set inputs \<and> func x = Inl e"
  show "\<exists>e'. harness_II clock cands inputs w = Inl e'"
    by (rule harness_II_raises [of func title cands x inputs e clock w])
       (use a in simp_all)
next
  assume a: "d \<in> set ds \<and> sts d = Some func \<and> x \<in> {1900, 2000, 2019, 2020}
               \<and> func x = Inl e"
  show "\<exists>e'. harness_I clock sts ds w = Inl e'"
    by (rule harness_I_raises [of d ds sts func x e clock w]) (use a in simp_all)
qed

theorem candidate_exception_aborts_witness:
  "harness_II steady_clock
        ([(returns leap_if_statements, ''if-statements'')]
           @ (leap_datetime, ''datetime-add'') # [(returns leap_calendar, ''calendar-isleap'')])
        ([1900] @ 2147483648 # [0, 2020]) initial_world = Inl OverflowError
   \<and> harness_I steady_clock
        [''if-statements'' \<mapsto> returns leap_if_statements,
         ''datetime-add'' \<mapsto> (\<lambda>y. leap_datetime (if y < 2000 then y else (2019 - y) * 2 ^ 31))]
        ([''if-statements''] @ ''datetime-add'' # [''ternary'']) initial_world
       = Inl OverflowError
   \<and> (\<exists>e'. harness_II steady_clock
              [(returns leap_if_statements, ''if-statements''), (leap_datetime, ''datetime-add'')]
              [1900, 2000, 0, 2020] initial_world = Inl e')
   \<and> (\<exists>e'. harness_I steady_clock [''datetime-add'' \<mapsto> (\<lambda>y. leap_datetime (y - 2020))]
              [''datetime-add''] initial_world = Inl e')"
proof -
  let ?pre = "[(returns leap_if_statements, ''if-statements'')]"
  let ?post = "[(returns leap_calendar, ''calendar-isleap'')]"
  let ?f = "\<lambda>y. leap_datetime (if y < 2000 then y else (2019 - y) * 2 ^ 31)"
  let ?sts = "[''if-statements'' \<mapsto> returns leap_if_statements, ''datetime-add'' \<mapsto> ?f]"
  let ?shifted = "\<lambda>y. leap_datetime (y - 2020)"
  have z: "leap_datetime 0 = Inl ValueError"
    by (simp add: leap_datetime_out_of_range fits_c_int_def)
  have big: "leap_datetime 2147483648 = Inl OverflowError"
    by (simp add: leap_datetime_out_of_range fits_c_int_def)
  have ok: "leap_datetime 1900 = Inr False"
    by (simp add: leap_datetime_in_range is_leap_def)
  have "\<exists>w'. harness_II steady_clock ?pre ([1900] @ 2147483648 # [0, 2020]) initial_world
          = Inr w'"
    by (simp add: returns_def Timer_repeat_default py_min_default initial_world_def
        DataFrame_nan_def loc_set_slice_def slice_col_headers [unfolded col_headers_def]
        print_def Let_def col_headers_def row_headers_def)
  then obtain w' where
    pre: "harness_II steady_clock ?pre ([1900] @ 2147483648 # [0, 2020]) initial_world = Inr w'"
    by blast
  have prem1: "harness_II steady_clock ?pre ([1900] @ 2147483648 # [0, 2020]) initial_world
        = Inr w'
      \<and> (\<forall>y \<in> set [1900]. \<exists>b. leap_datetime y = Inr b)
      \<and> leap_datetime 2147483648 = Inl OverflowError"
    by (intro conjI pre big) (auto simp add: ok)
  have 1: "harness_II steady_clock (?pre @ (leap_datetime, ''datetime-add'') # ?post)
             ([1900] @ 2147483648 # [0, 2020]) initial_world = Inl OverflowError"
    by (rule candidate_exception_aborts [where clock = steady_clock and pre = ?pre
          and ys = "[1900]" and x = 2147483648 and zs = "[0, 2020]" and w = initial_world
          and w' = w' and func = leap_datetime and e = OverflowError
          and title = "''datetime-add''" and post = ?post,
          THEN conjunct1, THEN mp, OF prem1])
  have "\<exists>v. harness_I steady_clock ?sts [''if-statements''] initial_world = Inr v"
    by (simp add: loop_body_I_def measure_cell_def returns_def Let_def)
  then obtain v where
    pre_I: "harness_I steady_clock ?sts [''if-statements''] initial_world = Inr v"
    by blast
  have f: "?f 1900 = Inr False" "?f 2000 = Inl OverflowError"
    by (simp_all add: ok leap_datetime_out_of_range fits_c_int_def)
  have prem2: "harness_I steady_clock ?sts [''if-statements''] initial_world = Inr v
      \<and> ?sts ''datetime-add'' = Some ?f
      \<and> [1900, 2000, 2019, 2020] = [1900] @ 2000 # [2019, 2020]
      \<and> (\<forall>y \<in> set [1900]. \<exists>b. ?f y = Inr b)
      \<and> ?f 2000 = Inl OverflowError"
    by (intro conjI pre_I f(2)) (auto simp add: ok)
  have 2: "harness_I steady_clock ?sts ([''if-statements''] @ ''datetime-add'' # [''ternary''])
             initial_world = Inl OverflowError"
    by (rule candidate_exception_aborts [where clock = steady_clock and sts = ?sts
          and pre_ds = "[''if-statements'']" and w = initial_world and w' = v
          and d = "''datetime-add''" and func = ?f and ys = "[1900]" and x = 2000
          and zs = "[2019, 2020]" and e = OverflowError and post_ds = "[''ternary'']",
          THEN conjunct2, THEN conjunct1, THEN mp, OF prem2])
  have prem3: "(leap_datetime, ''datetime-add'')
        \<in> set [(returns leap_if_statements, ''if-statements''), (leap_datetime, ''datetime-add'')]
      \<and> (0::int) \<in> set [1900, 2000, 0, 2020] \<and> leap_datetime 0 = Inl ValueError"
    using z by simp
  have 3: "\<exists>e'. harness_II steady_clock
              [(returns leap_if_statements, ''if-statements''), (leap_datetime, ''datetime-add'')]
              [1900, 2000, 0, 2020] initial_world = Inl e'"
    by (rule candidate_exception_aborts [where func = leap_datetime
          and title = "''datetime-add''"
          and cands = "[(returns leap_if_statements, ''if-statements''),
                        (leap_datetime, ''datetime-add'')]"
          and x = 0 and inputs = "[1900, 2000, 0, 2020]" and e = ValueError
          and clock = steady_clock and w = initial_world,
          THEN conjunct2, THEN conjunct2, THEN conjunct1, THEN mp, OF prem3])
  have prem4: "''datetime-add'' \<in> set [''datetime-add'']
      \<and> [''datetime-add'' \<mapsto> ?shifted] ''datetime-add'' = Some ?shifted
      \<and> (2020::int) \<in> {1900, 2000, 2019, 2020} \<and> ?shifted 2020 = Inl ValueError"
    using z by simp
  have 4: "\<exists>e'. harness_I steady_clock [''datetime-add'' \<mapsto> ?shifted]
              [''datetime-add''] initial_world = Inl e'"
    by (rule candidate_exception_aborts [where func = ?shifted and e = ValueError
          and clock = steady_clock and w = initial_world and d = "''datetime-add''"
          and ds = "[''datetime-add'']" and sts = "[''datetime-add'' \<mapsto> ?shifted]"
          and x = 2020,
          THEN conjunct2, THEN conjunct2, THEN conjunct2, THEN mp, OF prem4])
  show ?thesis by (rule conjI [OF 1 conjI [OF 2 conjI [OF 3 4]]])
qed

end
